theory Spec2Isabelle
  imports Complex_Main "HOL-Library.Word" "HOL-Library.AList"
begin

section \<open>JavaScript values\<close>

text \<open>
  A JavaScript string is a sequence of UTF-16 code units; a code unit is kept as its
  number. Literals of the source are written with \<open>js\<close>.
\<close>

type_synonym jsstring = "nat list"

definition js :: "string \<Rightarrow> jsstring" where
  "js s = map of_char s"

text \<open>
  The values \<open>JSON.parse\<close> can return. A number is a rational (IEEE rounding is not
  modelled) or one of the two infinities that an overflowing literal parses to. An
  object keeps its keys in insertion order. The JavaScript value \<open>undefined\<close> is
  \<open>None\<close> of \<open>json option\<close>.
\<close>

datatype json =
    JNull
  | JBool bool
  | JNum rat
  | JInf bool
  | JStr jsstring
  | JArr "json list"
  | JObj "(jsstring \<times> json) list"

datatype exn =
    SyntaxError
  | TypeError
  | CallbackError
  | NetworkError
  | IOError
  | Error jsstring

text \<open>Truthiness, as \<open>if (v)\<close>, \<open>v || w\<close> and \<open>v && w\<close> test it.\<close>

fun truthy :: "json option \<Rightarrow> bool" where
  "truthy None = False"
| "truthy (Some JNull) = False"
| "truthy (Some (JBool b)) = b"
| "truthy (Some (JNum r)) = (r \<noteq> 0)"
| "truthy (Some (JInf p)) = True"
| "truthy (Some (JStr s)) = (s \<noteq> [])"
| "truthy (Some (JArr xs)) = True"
| "truthy (Some (JObj kvs)) = True"

definition or_else :: "json option \<Rightarrow> json option \<Rightarrow> json option" where
  "or_else a b = (if truthy a then a else b)"

text \<open>
  \<open>v.key\<close>: a TypeError on \<open>null\<close> and \<open>undefined\<close>, the own property of an
  object, and \<open>undefined\<close> on every other value (none of the keys the source reads is a
  property of a string, a number, a boolean or an array). \<open>v?.key\<close> is \<open>undefined\<close> where
  \<open>v.key\<close> throws.
\<close>

fun get :: "json option \<Rightarrow> jsstring \<Rightarrow> exn + json option" where
  "get None k = Inl TypeError"
| "get (Some JNull) k = Inl TypeError"
| "get (Some (JObj kvs)) k = Inr (map_of kvs k)"
| "get (Some v) k = Inr None"

definition opt_get :: "json option \<Rightarrow> jsstring \<Rightarrow> json option" where
  "opt_get v k = (case get v k of Inl e \<Rightarrow> None | Inr r \<Rightarrow> r)"

text \<open>\<open>s.split(sep)\<close> for a separator of one code unit: never the empty list.\<close>

fun split :: "nat \<Rightarrow> jsstring \<Rightarrow> jsstring list" where
  "split sep [] = [[]]"
| "split sep (c # cs) =
     (if c = sep then [] # split sep cs
      else (case split sep cs of
              [] \<Rightarrow> [[c]]
            | l # ls \<Rightarrow> (c # l) # ls))"

text \<open>\<open>xs.pop()\<close>: the last element (\<open>undefined\<close> on the empty array) and the rest.\<close>

definition pop :: "'a list \<Rightarrow> 'a option \<times> 'a list" where
  "pop xs = (if xs = [] then (None, []) else (Some (last xs), butlast xs))"

text \<open>\<open>s.trim()\<close> removes ECMAScript white space and line terminators at both ends.\<close>

definition is_ws :: "nat \<Rightarrow> bool" where
  "is_ws c \<longleftrightarrow>
     c \<in> set [9, 10, 11, 12, 13, 32, 160, 5760, 8232, 8233, 8239, 8287, 12288, 65279]
     \<or> (8192 \<le> c \<and> c \<le> 8202)"

definition trim :: "jsstring \<Rightarrow> jsstring" where
  "trim s = rev (dropWhile is_ws (rev (dropWhile is_ws s)))"

subsection \<open>Decoding a chunk: \<open>Buffer.prototype.toString()\<close>\<close>

text \<open>
  \<open>data.toString()\<close> decodes the bytes of ONE chunk as UTF-8. Node replaces every
  ill-formed sequence, also a sequence cut off by the end of the chunk, by U+FFFD
  (65533), and a code point above the basic plane becomes a surrogate pair. The decoder
  carries the code point read so far, the number of continuation bytes still needed and
  the range allowed for the next one.
\<close>

record utf8_state =
  code_point :: nat
  needed :: nat
  lower :: nat
  upper :: nat

definition utf8_idle :: utf8_state where
  "utf8_idle = \<lparr>code_point = 0, needed = 0, lower = 128, upper = 191\<rparr>"

definition utf16 :: "nat \<Rightarrow> jsstring" where
  "utf16 cp =
     (if cp < 65536 then [cp]
      else [55296 + (cp - 65536) div 1024, 56320 + (cp - 65536) mod 1024])"

definition utf8_lead :: "nat \<Rightarrow> jsstring \<times> utf8_state" where
  "utf8_lead b =
     (if b < 128 then ([b], utf8_idle)
      else if 194 \<le> b \<and> b \<le> 223 then
        ([], \<lparr>code_point = b - 192, needed = 1, lower = 128, upper = 191\<rparr>)
      else if 224 \<le> b \<and> b \<le> 239 then
        ([], \<lparr>code_point = b - 224, needed = 2,
              lower = (if b = 224 then 160 else 128),
              upper = (if b = 237 then 159 else 191)\<rparr>)
      else if 240 \<le> b \<and> b \<le> 244 then
        ([], \<lparr>code_point = b - 240, needed = 3,
              lower = (if b = 240 then 144 else 128),
              upper = (if b = 244 then 143 else 191)\<rparr>)
      else ([65533], utf8_idle))"

fun utf8_decode :: "utf8_state \<Rightarrow> nat list \<Rightarrow> jsstring" where
  "utf8_decode st [] = (if needed st = 0 then [] else [65533])"
| "utf8_decode st (b # bs) =
     (if needed st = 0 then
        (case utf8_lead b of (out, st') \<Rightarrow> out @ utf8_decode st' bs)
      else if lower st \<le> b \<and> b \<le> upper st then
        (let cp = code_point st * 64 + (b - 128) in
         if needed st = 1 then utf16 cp @ utf8_decode utf8_idle bs
         else utf8_decode \<lparr>code_point = cp, needed = needed st - 1,
                            lower = 128, upper = 191\<rparr> bs)
      else
        (case utf8_lead b of (out, st') \<Rightarrow> 65533 # out @ utf8_decode st' bs))"

definition Buffer_toString :: "8 word list \<Rightarrow> jsstring" where
  "Buffer_toString data = utf8_decode utf8_idle (map unat data)"

section \<open>The codex tool: \<open>execute\<close>\<close>

subsection \<open>Results, host and operation state\<close>

text \<open>
  \<open>CodexDetails\<close> and the value handed to \<open>resolve\<close> and to \<open>onUpdate\<close>. The
  content is one text item; \<open>lastMessage || "..."\<close> is whatever value \<open>lastMessage\<close>
  holds at run time, so the text is a JSON value.
\<close>

record details =
  d_events :: "json list"
  d_exitCode :: "int option"
  d_streaming :: bool
  d_lastMessage :: "json option"
  d_error :: "jsstring option"

record tool_result =
  content_text :: json
  details :: details

text \<open>
  What the tool takes from its surroundings: \<open>JSON.parse\<close> (\<open>None\<close> when it throws),
  the text of a finite number (\<open>Number.prototype.toString\<close>), and the caller's
  optional \<open>onUpdate\<close> callback (\<open>True\<close> when the call throws).
\<close>

record host =
  JSON_parse :: "jsstring \<Rightarrow> json option"
  Number_toString :: "rat \<Rightarrow> jsstring"
  onUpdate :: "(tool_result \<Rightarrow> bool) option"

text \<open>
  The promise is resolved with a result or rejected with what was thrown; the error
  handler rejects it with \<open>new Error(message)\<close>.
\<close>

datatype settlement = Resolved tool_result | Rejected exn

datatype kill_signal = SIGTERM | SIGKILL

text \<open>
  The variables the closures of \<open>execute\<close> share. \<open>outcome\<close> lists the calls of the
  promise's \<open>resolve\<close> and \<open>reject\<close> in order; \<open>signal\<close> is \<open>None\<close> when no
  AbortSignal was passed and otherwise holds \<open>signal.aborted\<close>; \<open>listening\<close> says that
  \<open>onAbort\<close> is registered; \<open>updates\<close> lists the calls of \<open>onUpdate\<close>.
\<close>

record op_state =
  events :: "json list"
  lastMessage :: json
  settled :: bool
  outcome :: "settlement list"
  spawned :: bool
  buffer :: jsstring
  stderr :: jsstring
  signal :: "bool option"
  listening :: bool
  killed :: bool
  sent :: "kill_signal list"
  timers :: nat
  updates :: "tool_result list"

text \<open>
  The conversion to a string that a template literal and \<open>+\<close> with a string apply.
  An array is joined with commas, \<open>null\<close> elements as the empty string. An object that
  \<open>JSON.parse\<close> built converts with \<open>Object.prototype.toString\<close>, unless it has a key
  \<open>toString\<close> of its own: the value under that key is not callable, \<open>valueOf\<close>
  gives back the object, and the conversion throws a TypeError.
\<close>

fun to_string :: "host \<Rightarrow> json \<Rightarrow> exn + jsstring"
  and join_elements :: "host \<Rightarrow> json list \<Rightarrow> exn + jsstring" where
  "to_string H JNull = Inr (js ''null'')"
| "to_string H (JBool b) = Inr (if b then js ''true'' else js ''false'')"
| "to_string H (JNum r) = Inr (Number_toString H r)"
| "to_string H (JInf p) = Inr (if p then js ''Infinity'' else js ''-Infinity'')"
| "to_string H (JStr s) = Inr s"
| "to_string H (JArr xs) = join_elements H xs"
| "to_string H (JObj kvs) =
     (if map_of kvs (js ''toString'') = None then Inr (js ''[object Object]'')
      else Inl TypeError)"
| "join_elements H [] = Inr []"
| "join_elements H (x # xs) =
     (case (if x = JNull then Inr [] else to_string H x) of
        Inl e \<Rightarrow> Inl e
      | Inr a \<Rightarrow>
          (case join_elements H xs of
             Inl e \<Rightarrow> Inl e
           | Inr b \<Rightarrow> Inr (if xs = [] then a else a @ 44 # b)))"

text \<open>\<open>${v}\<close> in a template literal; \<open>undefined\<close> gives the text \<open>undefined\<close>.\<close>

definition template :: "host \<Rightarrow> json option \<Rightarrow> exn + jsstring" where
  "template H v = (case v of None \<Rightarrow> Inr (js ''undefined'') | Some j \<Rightarrow> to_string H j)"

text \<open>A template literal with one interpolation: the text before, the value, the text after.\<close>

definition interpolate :: "jsstring \<Rightarrow> exn + jsstring \<Rightarrow> jsstring \<Rightarrow> exn + jsstring" where
  "interpolate before v after =
     (case v of Inl e \<Rightarrow> Inl e | Inr t \<Rightarrow> Inr (before @ t @ after))"

definition safeResolve :: "tool_result \<Rightarrow> op_state \<Rightarrow> op_state" where
  "safeResolve v s =
     (if \<not> settled s then s\<lparr>settled := True, outcome := outcome s @ [Resolved v]\<rparr>
      else s)"

definition safeReject :: "exn \<Rightarrow> op_state \<Rightarrow> op_state" where
  "safeReject err s =
     (if \<not> settled s then s\<lparr>settled := True, outcome := outcome s @ [Rejected err]\<rparr>
      else s)"

subsection \<open>\<open>formatEventForDisplay\<close>\<close>

text \<open>
  The preview of a command's output. \<open>output\<close> is \<open>item.aggregated_output || ""\<close>:
  a string is cut at 50 code units; an array longer than 50 is sliced and converted to
  a string by the \<open>+\<close>; on every other value \<open>slice\<close> or \<open>trim\<close> is not a function.
\<close>

definition output_preview :: "host \<Rightarrow> json option \<Rightarrow> exn + jsstring" where
  "output_preview H output =
     (case output of
        Some (JStr s) \<Rightarrow>
          Inr (trim (if length s > 50 then take 47 s @ js ''...'' else s))
      | Some (JArr xs) \<Rightarrow>
          (if length xs > 50
           then (case to_string H (JArr (take 47 xs)) of
                   Inl e \<Rightarrow> Inl e
                 | Inr t \<Rightarrow> Inr (trim (t @ js ''...'')))
           else Inl TypeError)
      | _ \<Rightarrow> Inl TypeError)"

definition format_item_started :: "host \<Rightarrow> json option \<Rightarrow> exn + jsstring" where
  "format_item_started H item =
     (case get item (js ''type'') of
        Inl e \<Rightarrow> Inl e
      | Inr ty \<Rightarrow>
          if ty = Some (JStr (js ''command_execution''))
          then interpolate (js ''-> Running: '')
                 (template H (or_else (opt_get item (js ''command''))
                                      (Some (JStr (js ''(command)''))))) []
          else interpolate (js ''-> '') (template H ty) [])"

definition format_item_completed :: "host \<Rightarrow> json option \<Rightarrow> exn + jsstring" where
  "format_item_completed H item =
     (case get item (js ''type'') of
        Inl e \<Rightarrow> Inl e
      | Inr ty \<Rightarrow>
          if ty = Some (JStr (js ''reasoning'')) then
            interpolate (js ''[thinking] '')
              (template H (or_else (opt_get item (js ''text'')) (Some (JStr [])))) []
          else if ty = Some (JStr (js ''command_execution'')) then
            (case output_preview H
                    (or_else (opt_get item (js ''aggregated_output'')) (Some (JStr []))) of
               Inl e \<Rightarrow> Inl e
             | Inr preview \<Rightarrow>
                 interpolate []
                   (if opt_get item (js ''exit_code'') = Some (JNum 0) then Inr (js ''[ok]'')
                    else interpolate (js ''[exit '')
                           (template H (opt_get item (js ''exit_code''))) (js '']''))
                   (js '' '' @ preview))
          else if ty = Some (JStr (js ''agent_message'')) then
            interpolate (js ''[message] '')
              (template H (or_else (opt_get item (js ''text'')) (Some (JStr [])))) []
          else if ty = Some (JStr (js ''file_create'')) \<or> ty = Some (JStr (js ''file_edit'')) then
            interpolate (js ''[file] '') (template H ty) []
          else interpolate (js ''['') (template H ty) (js '']''))"

definition formatEventForDisplay :: "host \<Rightarrow> json \<Rightarrow> exn + jsstring" where
  "formatEventForDisplay H event =
     (case get (Some event) (js ''type'') of
        Inl e \<Rightarrow> Inl e
      | Inr ty \<Rightarrow>
          if ty = Some (JStr (js ''thread.started'')) then Inr (js ''[starting]'')
          else if ty = Some (JStr (js ''turn.started'')) then Inr (js ''[turn started]'')
          else if ty = Some (JStr (js ''turn.completed'')) then
            interpolate (js ''[turn completed: '')
              (template H (or_else (opt_get (opt_get (Some event) (js ''usage''))
                                            (js ''output_tokens''))
                                   (Some (JNum 0))))
              (js '' tokens]'')
          else if ty = Some (JStr (js ''item.started'')) then
            format_item_started H (opt_get (Some event) (js ''item''))
          else if ty = Some (JStr (js ''item.completed'')) then
            format_item_completed H (opt_get (Some event) (js ''item''))
          else interpolate (js ''['') (template H ty) (js '']''))"

subsection \<open>The event classifier\<close>

text \<open>
  \<open>itemEvent.item?.type === "agent_message" && itemEvent.item?.text\<close>: the text that
  replaces \<open>lastMessage\<close>, if the guard lets it.
\<close>

definition agent_message_text :: "json \<Rightarrow> json option" where
  "agent_message_text event =
     (let item = opt_get (Some event) (js ''item'') in
      if opt_get item (js ''type'') = Some (JStr (js ''agent_message''))
         \<and> truthy (opt_get item (js ''text''))
      then opt_get item (js ''text'')
      else None)"

text \<open>
  A \<open>try\<close> block is run to its end or to the statement that throws: the result is
  the exception, if any, and the state reached. The statements after \<open>JSON.parse\<close>
  that both \<open>try\<close> blocks share:
\<close>

definition push_event :: "json \<Rightarrow> op_state \<Rightarrow> exn option \<times> op_state" where
  "push_event event s =
     (let s1 = s\<lparr>events := events s @ [event]\<rparr> in
      case get (Some event) (js ''type'') of
        Inl e \<Rightarrow> (Some e, s1)
      | Inr ty \<Rightarrow>
          if ty = Some (JStr (js ''item.completed'')) then
            (case agent_message_text event of
               Some t \<Rightarrow> (None, s1\<lparr>lastMessage := t\<rparr>)
             | None \<Rightarrow> (None, s1))
          else (None, s1))"

text \<open>
  \<open>onUpdate?.({...})\<close>: without a callback the argument is not evaluated; with one,
  \<open>formatEventForDisplay\<close> may throw before the call, and the call may throw.
\<close>

definition emit_update :: "host \<Rightarrow> json \<Rightarrow> op_state \<Rightarrow> exn option \<times> op_state" where
  "emit_update H event s =
     (case onUpdate H of
        None \<Rightarrow> (None, s)
      | Some callback \<Rightarrow>
          (case formatEventForDisplay H event of
             Inl e \<Rightarrow> (Some e, s)
           | Inr shown \<Rightarrow>
               (let u = \<lparr>content_text = JStr shown,
                         details = \<lparr>d_events = events s, d_exitCode = None,
                                     d_streaming = True,
                                     d_lastMessage = Some (lastMessage s),
                                     d_error = None\<rparr>\<rparr>;
                    s' = s\<lparr>updates := updates s @ [u]\<rparr>
                in if callback u then (Some CallbackError, s') else (None, s'))))"

definition data_try :: "host \<Rightarrow> jsstring \<Rightarrow> op_state \<Rightarrow> exn option \<times> op_state" where
  "data_try H line s =
     (case JSON_parse H line of
        None \<Rightarrow> (Some SyntaxError, s)
      | Some event \<Rightarrow>
          (case push_event event s of
             (Some e, s1) \<Rightarrow> (Some e, s1)
           | (None, s1) \<Rightarrow> emit_update H event s1))"

text \<open>\<open>catch { }\<close> with an empty body: the exception is dropped, the state stays.\<close>

definition catch_all :: "exn option \<times> op_state \<Rightarrow> exn option \<times> op_state" where
  "catch_all r = (None, snd r)"

text \<open>One turn of \<open>for (const line of lines)\<close>, and the loop.\<close>

definition handle_line :: "host \<Rightarrow> jsstring \<Rightarrow> op_state \<Rightarrow> exn option \<times> op_state" where
  "handle_line H line s =
     (if trim line = [] then (None, s) else catch_all (data_try H line s))"

fun handle_lines :: "host \<Rightarrow> jsstring list \<Rightarrow> op_state \<Rightarrow> exn option \<times> op_state" where
  "handle_lines H [] s = (None, s)"
| "handle_lines H (line # rest) s =
     (case handle_line H line s of
        (Some e, s') \<Rightarrow> (Some e, s')
      | (None, s') \<Rightarrow> handle_lines H rest s')"

subsection \<open>The handlers\<close>

text \<open>
  The body of the stdout handler after \<open>data.toString()\<close>, and the handler.
  \<open>lines.pop() || ""\<close> is the last piece.
\<close>

definition stdout_text :: "host \<Rightarrow> jsstring \<Rightarrow> op_state \<Rightarrow> exn option \<times> op_state" where
  "stdout_text H chunk s =
     (case pop (split 10 (buffer s @ chunk)) of
        (last_line, lines) \<Rightarrow>
          handle_lines H lines
            (s\<lparr>buffer := (case last_line of None \<Rightarrow> [] | Some l \<Rightarrow> l)\<rparr>))"

definition on_stdout_data :: "host \<Rightarrow> 8 word list \<Rightarrow> op_state \<Rightarrow> exn option \<times> op_state" where
  "on_stdout_data H data s = stdout_text H (Buffer_toString data) s"

definition on_stderr_data :: "8 word list \<Rightarrow> op_state \<Rightarrow> op_state" where
  "on_stderr_data data s = s\<lparr>stderr := stderr s @ Buffer_toString data\<rparr>"

definition close_flush :: "host \<Rightarrow> op_state \<Rightarrow> exn option \<times> op_state" where
  "close_flush H s =
     (if trim (buffer s) = [] then (None, s)
      else catch_all
             (case JSON_parse H (buffer s) of
                None \<Rightarrow> (Some SyntaxError, s)
              | Some event \<Rightarrow> push_event event s))"

definition or_default :: "json \<Rightarrow> jsstring \<Rightarrow> json" where
  "or_default v d = (if truthy (Some v) then v else JStr d)"

text \<open>
  The result of the close handler. The two template literals convert \<open>lastMessage\<close>
  to a string, outside any \<open>try\<close>: what the conversion throws leaves the handler.
\<close>

definition build_result :: "host \<Rightarrow> int option \<Rightarrow> op_state \<Rightarrow> exn + tool_result" where
  "build_result H code s =
     (let wasAborted = (signal s = Some True);
          hasError = (code \<noteq> Some 0 \<and> code \<noteq> None);
          resultText =
            (if wasAborted then
               (case template H (Some (or_default (lastMessage s) (js ''(no output)''))) of
                  Inl e \<Rightarrow> Inl e
                | Inr output \<Rightarrow>
                    Inr (JStr (js ''Codex execution aborted.\<newline>\<newline>Partial output:\<newline>''
                               @ output)))
             else if hasError then
               (case template H (Some (case code of None \<Rightarrow> JNull
                                       | Some c \<Rightarrow> JNum (of_int c))) of
                  Inl e \<Rightarrow> Inl e
                | Inr exit_code \<Rightarrow>
                    (case template H (Some (or_default (lastMessage s) (js ''(no output)''))) of
                       Inl e \<Rightarrow> Inl e
                     | Inr output \<Rightarrow>
                         Inr (JStr (js ''Codex exited with code '' @ exit_code @
                                    js ''.\<newline>\<newline>Stderr:\<newline>'' @
                                    (if stderr s \<noteq> [] then stderr s else js ''(no stderr)'') @
                                    js ''\<newline>\<newline>Output:\<newline>'' @ output))))
             else Inr (or_default (lastMessage s) (js ''(Codex completed with no message output)'')))
      in case resultText of
           Inl e \<Rightarrow> Inl e
         | Inr shown \<Rightarrow>
             Inr \<lparr>content_text = shown,
                  details = \<lparr>d_events = events s, d_exitCode = code, d_streaming = False,
                              d_lastMessage = Some (lastMessage s),
                              d_error = (if wasAborted then Some (js ''aborted'')
                                         else if hasError then Some (stderr s) else None)\<rparr>\<rparr>)"

definition on_close :: "host \<Rightarrow> int option \<Rightarrow> op_state \<Rightarrow> exn option \<times> op_state" where
  "on_close H code s =
     (case close_flush H (s\<lparr>listening := False\<rparr>) of
        (Some e, s1) \<Rightarrow> (Some e, s1)
      | (None, s1) \<Rightarrow>
          (case build_result H code s1 of
             Inl e \<Rightarrow> (Some e, s1)
           | Inr r \<Rightarrow> (None, safeResolve r s1)))"

definition spawn_error_message :: "jsstring option \<Rightarrow> jsstring \<Rightarrow> jsstring" where
  "spawn_error_message code message =
     (if code = Some (js ''ENOENT'')
      then js ''Codex CLI not found. Install with: npm install -g @openai/codex''
      else if code = Some (js ''EACCES'')
      then js ''Permission denied running Codex CLI: '' @ message
      else js ''Failed to spawn Codex: '' @ message)"

definition on_error :: "jsstring option \<Rightarrow> jsstring \<Rightarrow> op_state \<Rightarrow> op_state" where
  "on_error code message s =
     safeReject (Error (spawn_error_message code message)) (s\<lparr>listening := False\<rparr>)"

text \<open>
  \<open>onAbort\<close>: \<open>child.kill\<close> sets \<open>child.killed\<close> when the signal could be delivered
  (\<open>delivered\<close>, told by the operating system), and a timer is set. The timer's
  callback sends SIGKILL if \<open>child.killed\<close> is still false. Neither settles the promise.
\<close>

definition onAbort :: "bool \<Rightarrow> op_state \<Rightarrow> op_state" where
  "onAbort delivered s =
     (if \<not> killed s
      then s\<lparr>sent := sent s @ [SIGTERM], killed := delivered, timers := timers s + 1\<rparr>
      else s)"

definition force_kill :: "bool \<Rightarrow> op_state \<Rightarrow> op_state" where
  "force_kill delivered s =
     (if timers s = 0 then s
      else if \<not> killed s
      then s\<lparr>sent := sent s @ [SIGKILL], killed := delivered, timers := timers s - 1\<rparr>
      else s\<lparr>timers := timers s - 1\<rparr>)"

text \<open>The signal aborts: \<open>signal.aborted\<close> becomes true and the listeners run once.\<close>

definition signal_abort :: "bool \<Rightarrow> op_state \<Rightarrow> op_state" where
  "signal_abort delivered s =
     (if signal s = Some False then
        (let s1 = s\<lparr>signal := Some True\<rparr> in
         if listening s1 then onAbort delivered (s1\<lparr>listening := False\<rparr>) else s1)
      else s)"

subsection \<open>The operation\<close>

definition aborted_before_start :: tool_result where
  "aborted_before_start =
     \<lparr>content_text = JStr (js ''Codex execution aborted before start.''),
      details = \<lparr>d_events = [], d_exitCode = None, d_streaming = False,
                  d_lastMessage = None, d_error = Some (js ''aborted'')\<rparr>\<rparr>"

text \<open>
  \<open>execute\<close> up to the end of the promise's executor: with the signal already aborted
  it resolves and returns before anything is spawned. Otherwise \<open>spawn\<close> is called,
  outside any \<open>try\<close>. When it throws (\<open>spawn_throws\<close>: an argument with a NUL byte,
  too long an argument list), the exception leaves the executor and rejects the promise:
  \<open>settled\<close> stays false, there is no child and no handler is registered. When it
  returns the child, the handlers are registered.
\<close>

definition execute :: "bool option \<Rightarrow> exn option \<Rightarrow> op_state" where
  "execute sig spawn_throws =
     (let s0 = \<lparr>events = [], lastMessage = JStr [], settled = False, outcome = [],
                spawned = False, buffer = [], stderr = [], signal = sig,
                listening = False, killed = False, sent = [], timers = 0,
                updates = []\<rparr>
      in if sig = Some True then safeResolve aborted_before_start s0
         else (case spawn_throws of
                 Some e \<Rightarrow> s0\<lparr>outcome := [Rejected e]\<rparr>
               | None \<Rightarrow> s0\<lparr>spawned := True, listening := (sig \<noteq> None)\<rparr>))"

text \<open>
  What can happen afterwards, one callback at a time. Without a child no handler is
  registered and nothing runs. An exception that leaves a handler is not caught by the
  tool: the state is the one the handler had reached.
\<close>

datatype trigger =
    StdoutData "8 word list"
  | StderrData "8 word list"
  | Close "int option"
  | SpawnError "jsstring option" jsstring
  | Abort bool
  | KillTimeout bool

definition step :: "host \<Rightarrow> op_state \<Rightarrow> trigger \<Rightarrow> op_state" where
  "step H s t =
     (if \<not> spawned s then s
      else case t of
             StdoutData data \<Rightarrow> snd (on_stdout_data H data s)
           | StderrData data \<Rightarrow> on_stderr_data data s
           | Close code \<Rightarrow> snd (on_close H code s)
           | SpawnError code message \<Rightarrow> on_error code message s
           | Abort delivered \<Rightarrow> signal_abort delivered s
           | KillTimeout delivered \<Rightarrow> force_kill delivered s)"

definition run :: "host \<Rightarrow> op_state \<Rightarrow> trigger list \<Rightarrow> op_state" where
  "run H s ts = foldl (step H) s ts"

section \<open>Codex CLI credentials\<close>

subsection \<open>Platform and world\<close>

record request =
  url :: jsstring
  http_method :: jsstring
  headers :: "(jsstring \<times> jsstring) list"
  form :: "(jsstring \<times> jsstring) list"

record response =
  ok :: bool
  status :: nat
  body_text :: jsstring

text \<open>
  The calls of \<open>node:fs/promises\<close> that change the file system, with the mode they
  pass (\<open>mkdir\<close> is always called with \<open>recursive: true\<close>).
\<close>

datatype fs_call =
    Mkdir jsstring nat
  | WriteFile jsstring jsstring nat
  | Rename jsstring jsstring

datatype effect = Fetch request | Fs fs_call

text \<open>
  The world a call of \<open>getCodexCliAuth\<close> runs in: the content of every file, and the
  network and file-system calls made so far, in order.
\<close>

record world =
  files :: "jsstring \<rightharpoonup> jsstring"
  calls :: "effect list"

text \<open>
  What the credential code takes from Node: \<open>JSON.parse\<close> (\<open>None\<close> when it throws),
  \<open>JSON.stringify(data, null, 2)\<close>, \<open>Buffer.from(s, "base64")\<close>,
  \<open>join(homedir(), ".codex", "auth.json")\<close>, \<open>Date.now()\<close>,
  \<open>new Date().toISOString()\<close>, \<open>process.pid\<close>,
  \<open>Math.random().toString(16).slice(2)\<close>, the answer of \<open>fetch\<close> with
  \<open>resp.text()\<close> (\<open>Inl\<close> when the promise rejects) and which file-system calls fail.
\<close>

record platform =
  parseJSON :: "jsstring \<Rightarrow> json option"
  stringify :: "json \<Rightarrow> jsstring"
  from_base64 :: "jsstring \<Rightarrow> 8 word list"
  default_path :: jsstring
  now :: int
  iso_now :: jsstring
  pid :: nat
  random_suffix :: jsstring
  fetch :: "request \<Rightarrow> exn + response"
  fs_fails :: "fs_call \<Rightarrow> bool"

text \<open>A non-negative integer in a template literal.\<close>

fun decimal :: "nat \<Rightarrow> jsstring" where
  "decimal n = (if n < 10 then [48 + n] else decimal (n div 10) @ [48 + n mod 10])"

declare decimal.simps [simp del]

text \<open>\<open>path.dirname\<close> (POSIX): the path up to the last slash that has a name after it.\<close>

definition dirname :: "jsstring \<Rightarrow> jsstring" where
  "dirname path =
     (if path = [] then js ''.''
      else
        (let hasRoot = (hd path = 47);
             body = dropWhile (\<lambda>c. c \<noteq> 47) (dropWhile (\<lambda>c. c = 47) (rev (tl path)))
         in if body = [] then (if hasRoot then js ''/'' else js ''.'')
            else if hasRoot \<and> length body = 1 then js ''//''
            else take (length body) path))"

subsection \<open>Records of the module\<close>

record CodexCliAuth =
  accessToken :: jsstring
  refreshToken :: "jsstring option"
  idToken :: "jsstring option"
  expiresAtMs :: "int option"

record CodexCliAuthOptions =
  authJsonPath :: "jsstring option"
  refreshLeewaySeconds :: "rat option"
  oauthClientId :: "jsstring option"
  tokenUrl :: "jsstring option"
  writeBack :: "bool option"

record TokenRefreshResponse =
  access_token :: jsstring
  refresh_token :: "jsstring option"
  id_token :: "jsstring option"
  expires_in :: "rat option"
  token_type :: "jsstring option"

text \<open>The \<open>CodexCliAuth\<close> of the read-only module has two fields only.\<close>

record ReadOnlyAuth =
  ro_accessToken :: jsstring
  ro_expiresAtMs :: "int option"

definition CODEX_CLIENT_ID :: jsstring where
  "CODEX_CLIENT_ID = js ''app_EMoamEEZ73f0CkXaXp7hrann''"

definition CODEX_TOKEN_URL :: jsstring where
  "CODEX_TOKEN_URL = js ''https://auth.openai.com/oauth/token''"

definition DEFAULT_REFRESH_LEEWAY_SECONDS :: rat where
  "DEFAULT_REFRESH_LEEWAY_SECONDS = 120"

subsection \<open>Reading the token\<close>

definition isRecord :: "json \<Rightarrow> bool" where
  "isRecord v = (case v of JObj kvs \<Rightarrow> True | _ \<Rightarrow> False)"

definition getOptionalString :: "(jsstring \<times> json) list \<Rightarrow> jsstring \<Rightarrow> jsstring option" where
  "getOptionalString obj key =
     (case map_of obj key of
        Some (JStr v) \<Rightarrow> if trim v \<noteq> [] then Some v else None
      | _ \<Rightarrow> None)"

definition base64UrlDecodeToUtf8 :: "platform \<Rightarrow> jsstring \<Rightarrow> jsstring" where
  "base64UrlDecodeToUtf8 P data =
     (let normalized = map (\<lambda>c. if c = 45 then 43 else if c = 95 then 47 else c) data;
          padded = normalized @ drop ((length normalized + 3) mod 4) (js ''==='')
      in Buffer_toString (from_base64 P padded))"

text \<open>
  \<open>undefined\<close> unless the token has three parts, the middle one is not empty, its
  decoding parses to an object, and \<open>exp\<close> is a finite positive number.
\<close>

definition extractJwtExpMs :: "platform \<Rightarrow> jsstring \<Rightarrow> int option" where
  "extractJwtExpMs P jwt =
     (let parts = split 46 jwt in
      if length parts \<noteq> 3 then None
      else
        (let payloadB64 = parts ! 1 in
         if payloadB64 = [] then None
         else
           (case parseJSON P (base64UrlDecodeToUtf8 P payloadB64) of
              None \<Rightarrow> None
            | Some (JObj payload) \<Rightarrow>
                (case map_of payload (js ''exp'') of
                   Some (JNum expiry) \<Rightarrow>
                     if expiry > 0 then Some \<lfloor>expiry * 1000\<rfloor> else None
                 | _ \<Rightarrow> None)
            | Some _ \<Rightarrow> None)))"

definition readJsonFile :: "platform \<Rightarrow> world \<Rightarrow> jsstring \<Rightarrow> exn + json" where
  "readJsonFile P w path =
     (case files w path of
        None \<Rightarrow> Inl IOError
      | Some raw \<Rightarrow>
          (case parseJSON P raw of None \<Rightarrow> Inl SyntaxError | Some v \<Rightarrow> Inr v))"

subsection \<open>Writing the file\<close>

text \<open>
  One file-system call: it is recorded; it fails when the platform says so, and a
  rename fails when its source is missing; otherwise it takes effect.
\<close>

definition perform :: "platform \<Rightarrow> fs_call \<Rightarrow> world \<Rightarrow> exn option \<times> world" where
  "perform P c w =
     (let w1 = w\<lparr>calls := calls w @ [Fs c]\<rparr> in
      if fs_fails P c then (Some IOError, w1)
      else
        (case c of
           Mkdir dir mode \<Rightarrow> (None, w1)
         | WriteFile path content mode \<Rightarrow>
             (None, w1\<lparr>files := (files w1)(path \<mapsto> content)\<rparr>)
         | Rename src dst \<Rightarrow>
             (case files w1 src of
                None \<Rightarrow> (Some IOError, w1)
              | Some content \<Rightarrow>
                  (None, w1\<lparr>files := ((files w1)(dst \<mapsto> content))(src := None)\<rparr>))))"

definition tmpPath :: "platform \<Rightarrow> jsstring \<Rightarrow> jsstring" where
  "tmpPath P path = path @ js ''.tmp-'' @ decimal (pid P) @ js ''-'' @ random_suffix P"

definition writeJsonFile :: "platform \<Rightarrow> jsstring \<Rightarrow> json \<Rightarrow> world \<Rightarrow> exn option \<times> world" where
  "writeJsonFile P path data w =
     (case perform P (Mkdir (dirname path) 448) w of
        (Some e, w1) \<Rightarrow> (Some e, w1)
      | (None, w1) \<Rightarrow>
          (case perform P (WriteFile (tmpPath P path) (stringify P data @ [10]) 384) w1 of
             (Some e, w2) \<Rightarrow> (Some e, w2)
           | (None, w2) \<Rightarrow> perform P (Rename (tmpPath P path) path) w2))"

subsection \<open>The refresh exchange\<close>

definition refresh_request :: "jsstring \<Rightarrow> jsstring \<Rightarrow> jsstring \<Rightarrow> request" where
  "refresh_request token_url clientId refreshTok =
     \<lparr>url = token_url, http_method = js ''POST'',
      headers = [(js ''Content-Type'', js ''application/x-www-form-urlencoded''),
                 (js ''Accept'', js ''application/json'')],
      form = [(js ''client_id'', clientId),
              (js ''grant_type'', js ''refresh_token''),
              (js ''refresh_token'', refreshTok),
              (js ''scope'', js ''openid profile email'')]\<rparr>"

definition refreshTokens ::
  "platform \<Rightarrow> jsstring \<Rightarrow> jsstring \<Rightarrow> jsstring \<Rightarrow> exn + TokenRefreshResponse" where
  "refreshTokens P token_url clientId refreshTok =
     (case fetch P (refresh_request token_url clientId refreshTok) of
        Inl e \<Rightarrow> Inl e
      | Inr resp \<Rightarrow>
          if \<not> ok resp then
            Inl (Error (js ''Codex token refresh failed ('' @ decimal (status resp) @
                        js ''): '' @ body_text resp))
          else
            (case parseJSON P (body_text resp) of
               None \<Rightarrow> Inl SyntaxError
             | Some (JObj json) \<Rightarrow>
                 (case getOptionalString json (js ''access_token'') of
                    None \<Rightarrow> Inl (Error (js ''Codex token refresh response missing access_token''))
                  | Some accessTok \<Rightarrow>
                      Inr \<lparr>access_token = accessTok,
                           refresh_token = getOptionalString json (js ''refresh_token''),
                           id_token = getOptionalString json (js ''id_token''),
                           expires_in =
                             (case map_of json (js ''expires_in'') of
                                Some (JNum n) \<Rightarrow> if n > 0 then Some n else None
                              | _ \<Rightarrow> None),
                           token_type = getOptionalString json (js ''token_type'')\<rparr>)
             | Some _ \<Rightarrow> Inl (Error (js ''Codex token refresh returned non-object JSON''))))"

subsection \<open>\<open>getCodexCliAuth\<close>, the refreshing module\<close>

text \<open>
  \<open>expiresAtMs !== undefined && expiresAtMs - now <= Math.max(0, refreshLeewaySeconds) * 1000\<close>
\<close>

definition isExpiringSoon :: "int option \<Rightarrow> int \<Rightarrow> rat \<Rightarrow> bool" where
  "isExpiringSoon expiresAt now_ms leeway =
     (case expiresAt of
        None \<Rightarrow> False
      | Some e \<Rightarrow> of_int (e - now_ms) \<le> max 0 leeway * 1000)"

text \<open>
  The assignments to \<open>tokens\<close> and \<open>file\<close>. \<open>tokens\<close> is the object \<open>file.tokens\<close>
  itself, so the document sees the new tokens under the key it had; an assignment to an
  existing key keeps the key's place and a new key goes to the end.
\<close>

definition merge_tokens ::
  "jsstring \<Rightarrow> jsstring \<Rightarrow> jsstring option \<Rightarrow> (jsstring \<times> json) list \<Rightarrow> (jsstring \<times> json) list" where
  "merge_tokens nextAccessToken nextRefreshToken nextIdToken tokens =
     (let t1 = AList.update (js ''access_token'') (JStr nextAccessToken) tokens;
          t2 = AList.update (js ''refresh_token'') (JStr nextRefreshToken) t1
      in case nextIdToken of
           None \<Rightarrow> t2
         | Some i \<Rightarrow> AList.update (js ''id_token'') (JStr i) t2)"

definition merge_file ::
  "platform \<Rightarrow> (jsstring \<times> json) list \<Rightarrow> (jsstring \<times> json) list \<Rightarrow> (jsstring \<times> json) list" where
  "merge_file P tokens' file =
     AList.update (js ''last_refresh'') (JStr (iso_now P))
       (AList.update (js ''tokens'') (JObj tokens') file)"

definition refresh_and_store ::
  "platform \<Rightarrow> CodexCliAuthOptions \<Rightarrow> (jsstring \<times> json) list \<Rightarrow> (jsstring \<times> json) list
     \<Rightarrow> jsstring \<Rightarrow> jsstring option \<Rightarrow> world \<Rightarrow> (exn + CodexCliAuth option) \<times> world" where
  "refresh_and_store P options file tokens refreshTok idTok w =
     (let path = (case authJsonPath options of None \<Rightarrow> default_path P | Some p \<Rightarrow> p);
          clientId = (case oauthClientId options of None \<Rightarrow> CODEX_CLIENT_ID | Some c \<Rightarrow> c);
          token_url = (case tokenUrl options of None \<Rightarrow> CODEX_TOKEN_URL | Some u \<Rightarrow> u);
          write_back = (case writeBack options of None \<Rightarrow> True | Some b \<Rightarrow> b);
          w1 = w\<lparr>calls := calls w @ [Fetch (refresh_request token_url clientId refreshTok)]\<rparr>
      in case refreshTokens P token_url clientId refreshTok of
           Inl e \<Rightarrow> (Inl e, w1)
         | Inr refreshed \<Rightarrow>
             (let nextAccessToken = access_token refreshed;
                  nextRefreshToken =
                    (case refresh_token refreshed of None \<Rightarrow> refreshTok | Some r \<Rightarrow> r);
                  nextIdToken = (case id_token refreshed of None \<Rightarrow> idTok | Some i \<Rightarrow> Some i);
                  file' = merge_file P
                            (merge_tokens nextAccessToken nextRefreshToken nextIdToken tokens) file;
                  auth = \<lparr>accessToken = nextAccessToken,
                          refreshToken = Some nextRefreshToken,
                          idToken = nextIdToken,
                          expiresAtMs = extractJwtExpMs P nextAccessToken\<rparr>
              in if write_back then
                   (case writeJsonFile P path (JObj file') w1 of
                      (Some e, w2) \<Rightarrow> (Inl e, w2)
                    | (None, w2) \<Rightarrow> (Inr (Some auth), w2))
                 else (Inr (Some auth), w1)))"

definition getCodexCliAuth ::
  "platform \<Rightarrow> CodexCliAuthOptions \<Rightarrow> world \<Rightarrow> (exn + CodexCliAuth option) \<times> world" where
  "getCodexCliAuth P options w =
     (let path = (case authJsonPath options of None \<Rightarrow> default_path P | Some p \<Rightarrow> p);
          leeway = (case refreshLeewaySeconds options of
                      None \<Rightarrow> DEFAULT_REFRESH_LEEWAY_SECONDS | Some l \<Rightarrow> l)
      in case readJsonFile P w path of
           Inl e \<Rightarrow> (Inr None, w)
         | Inr (JObj file) \<Rightarrow>
             (case map_of file (js ''tokens'') of
                Some (JObj tokens) \<Rightarrow>
                  (let accessTok = getOptionalString tokens (js ''access_token'');
                       refreshTok = getOptionalString tokens (js ''refresh_token'');
                       idTok = getOptionalString tokens (js ''id_token'')
                   in case accessTok of
                        None \<Rightarrow> (Inr None, w)
                      | Some tok \<Rightarrow>
                          (let expiresAt = extractJwtExpMs P tok in
                           case (if isExpiringSoon expiresAt (now P) leeway then refreshTok
                                 else None) of
                             Some r \<Rightarrow> refresh_and_store P options file tokens r idTok w
                           | None \<Rightarrow>
                               (Inr (Some \<lparr>accessToken = tok, refreshToken = refreshTok,
                                           idToken = idTok, expiresAtMs = expiresAt\<rparr>), w)))
              | _ \<Rightarrow> (Inr None, w))
         | Inr _ \<Rightarrow> (Inr None, w))"

subsection \<open>\<open>getCodexCliAuth\<close>, the read-only module\<close>

definition getCodexCliAuth_readonly ::
  "platform \<Rightarrow> jsstring option \<Rightarrow> world \<Rightarrow> ReadOnlyAuth option" where
  "getCodexCliAuth_readonly P authPath w =
     (let path = (case authPath of None \<Rightarrow> default_path P | Some p \<Rightarrow> p) in
      case readJsonFile P w path of
        Inl e \<Rightarrow> None
      | Inr (JObj file) \<Rightarrow>
          (case map_of file (js ''tokens'') of
             Some (JObj tokens) \<Rightarrow>
               (case getOptionalString tokens (js ''access_token'') of
                  None \<Rightarrow> None
                | Some tok \<Rightarrow>
                    (let expiresAt = extractJwtExpMs P tok in
                     case expiresAt of
                       None \<Rightarrow> Some \<lparr>ro_accessToken = tok, ro_expiresAtMs = expiresAt\<rparr>
                     | Some e \<Rightarrow>
                         if e \<le> now P then None
                         else Some \<lparr>ro_accessToken = tok, ro_expiresAtMs = expiresAt\<rparr>))
           | _ \<Rightarrow> None)
      | Inr _ \<Rightarrow> None)"

section \<open>Notions used to state the properties\<close>

text \<open>The triggers whose handler has a call of \<open>safeResolve\<close> or \<open>safeReject\<close>.\<close>

fun settles :: "trigger \<Rightarrow> bool" where
  "settles (Close code) = True"
| "settles (SpawnError code message) = True"
| "settles t = False"

text \<open>
  The values whose conversion to a string does not throw: every value but an object
  with a key \<open>toString\<close>, alone or as an element of an array.
\<close>

fun printable :: "json \<Rightarrow> bool"
  and printable_all :: "json list \<Rightarrow> bool" where
  "printable (JArr xs) = printable_all xs"
| "printable (JObj kvs) = (map_of kvs (js ''toString'') = None)"
| "printable JNull = True"
| "printable (JBool b) = True"
| "printable (JNum r) = True"
| "printable (JInf p) = True"
| "printable (JStr s) = True"
| "printable_all [] = True"
| "printable_all (x # xs) = (printable x \<and> printable_all xs)"

text \<open>
  The triggers whose handler, run in state \<open>s\<close>, gets to its call of \<open>safeResolve\<close> or
  \<open>safeReject\<close>: every spawn error, and a close unless the result has a template
  literal (the signal is aborted or the exit code is not zero) and the last message,
  after the leftover buffer is taken in, is not printable.
\<close>

fun settling :: "host \<Rightarrow> op_state \<Rightarrow> trigger \<Rightarrow> bool" where
  "settling H s (SpawnError code message) = True"
| "settling H s (Close code) =
     (if signal s = Some True \<or> (code \<noteq> None \<and> code \<noteq> Some 0)
      then printable (lastMessage (snd (close_flush H (s\<lparr>listening := False\<rparr>))))
      else True)"
| "settling H s t = False"

fun reaches_settlement :: "host \<Rightarrow> op_state \<Rightarrow> trigger list \<Rightarrow> bool" where
  "reaches_settlement H s [] = False"
| "reaches_settlement H s (t # ts) =
     (if settling H s t then True else reaches_settlement H (step H s t) ts)"

text \<open>
  The event a line adds to \<open>events\<close>: none for a line that is blank after \<open>trim\<close>
  (the loop skips it) and none for a line on which \<open>JSON.parse\<close> throws.
\<close>

definition line_event :: "host \<Rightarrow> jsstring \<Rightarrow> json option" where
  "line_event H line = (if trim line = [] then None else JSON_parse H line)"

text \<open>
  Whether the decoder is in the middle of a multi-byte sequence when the bytes end, and
  so whether a chunk ends inside a character.
\<close>

fun utf8_pending :: "utf8_state \<Rightarrow> nat list \<Rightarrow> bool" where
  "utf8_pending st [] = (needed st \<noteq> 0)"
| "utf8_pending st (b # bs) =
     (if needed st = 0 then utf8_pending (snd (utf8_lead b)) bs
      else if lower st \<le> b \<and> b \<le> upper st then
        (if needed st = 1 then utf8_pending utf8_idle bs
         else utf8_pending \<lparr>code_point = code_point st * 64 + (b - 128),
                             needed = needed st - 1, lower = 128, upper = 191\<rparr> bs)
      else utf8_pending (snd (utf8_lead b)) bs)"

definition cut_inside_character :: "8 word list \<Rightarrow> bool" where
  "cut_inside_character chunk = utf8_pending utf8_idle (map unat chunk)"

section \<open>Example inputs\<close>

text \<open>
  A host whose \<open>JSON.parse\<close> fails on every line, and one that reads a string literal
  without escapes, as \<open>JSON.parse\<close> does, and fails on everything else.
\<close>

definition quiet_host :: host where
  "quiet_host =
     \<lparr>JSON_parse = (\<lambda>line. None), Number_toString = (\<lambda>r. js ''?''), onUpdate = None\<rparr>"

definition parse_string_literal :: "jsstring \<Rightarrow> json option" where
  "parse_string_literal line =
     (case line of
        [] \<Rightarrow> None
      | q # rest \<Rightarrow>
          if q = 34 \<and> rest \<noteq> [] \<and> last rest = 34
             \<and> list_all (\<lambda>c. c \<noteq> 34 \<and> c \<noteq> 92 \<and> 32 \<le> c) (butlast rest)
          then Some (JStr (butlast rest)) else None)"

definition literal_host :: host where
  "literal_host =
     \<lparr>JSON_parse = parse_string_literal, Number_toString = (\<lambda>r. js ''?''),
      onUpdate = None\<rparr>"

text \<open>The event \<open>{"type": "item.completed", "item": {"type": "agent_message", "text": t}}\<close>.\<close>

definition agent_message_event :: "json \<Rightarrow> json" where
  "agent_message_event t =
     JObj [(js ''type'', JStr (js ''item.completed'')),
           (js ''item'', JObj [(js ''type'', JStr (js ''agent_message'')), (js ''text'', t)])]"

text \<open>
  A host that knows one line: an agent message whose text is an object with a key
  \<open>toString\<close>.
\<close>

definition toString_line :: jsstring where
  \<open>toString_line =
     js ''{"type":"item.completed","item":{"type":"agent_message","text":{"toString":null}}}''\<close>

definition object_host :: host where
  "object_host =
     \<lparr>JSON_parse = (\<lambda>line. if line = toString_line
                            then Some (agent_message_event (JObj [(js ''toString'', JNull)]))
                            else None),
      Number_toString = (\<lambda>r. js ''?''), onUpdate = None\<rparr>"

text \<open>
  A credential file with a key and a token-block key the module does not know, and a
  platform on which the file's text parses to it. The middle part of the access token
  decodes to \<open>payload\<close>; the token endpoint gives \<open>answer\<close>.
\<close>

definition demo_tokens :: "(jsstring \<times> json) list" where
  "demo_tokens = [(js ''access_token'', JStr (js ''h.p.s'')),
                  (js ''refresh_token'', JStr (js ''r1'')),
                  (js ''account_id'', JStr (js ''acct''))]"

definition demo_doc :: "(jsstring \<times> json) list" where
  "demo_doc = [(js ''OPENAI_API_KEY'', JNull), (js ''tokens'', JObj demo_tokens)]"

definition demo_platform :: "json option \<Rightarrow> response \<Rightarrow> platform" where
  "demo_platform payload answer =
     \<lparr>parseJSON = (\<lambda>s. if s = js ''AUTH'' then Some (JObj demo_doc)
                        else if s = js ''PAYLOAD'' then payload
                        else if s = js ''GOOD'' then
                          Some (JObj [(js ''access_token'', JStr (js ''h2.p.s'')),
                                      (js ''id_token'', JStr (js ''id2''))])
                        else if s = js ''ARRAY'' then Some (JArr [])
                        else None),
      stringify = (\<lambda>v. if v = JObj demo_doc then js ''AUTH'' else js ''UPDATED''),
      from_base64 = (\<lambda>s. [80, 65, 89, 76, 79, 65, 68]),
      default_path = js ''/home/u/.codex/auth.json'',
      now = 1700000000000,
      iso_now = js ''2023-11-14T22:13:20.000Z'',
      pid = 4242,
      random_suffix = js ''9f3a'',
      fetch = (\<lambda>req. Inr answer),
      fs_fails = (\<lambda>c. False)\<rparr>"

definition demo_world :: world where
  "demo_world = \<lparr>files = [js ''/home/u/.codex/auth.json'' \<mapsto> js ''AUTH''], calls = []\<rparr>"

definition demo_options :: "rat option \<Rightarrow> CodexCliAuthOptions" where
  "demo_options leeway =
     \<lparr>authJsonPath = None, refreshLeewaySeconds = leeway, oauthClientId = None,
      tokenUrl = None, writeBack = None\<rparr>"

definition exp_claim :: "rat \<Rightarrow> json option" where
  "exp_claim seconds = Some (JObj [(js ''exp'', JNum seconds)])"

definition http :: "nat \<Rightarrow> jsstring \<Rightarrow> response" where
  "http code body = \<lparr>ok = (200 \<le> code \<and> code < 300), status = code, body_text = body\<rparr>"

section \<open>The event classifier\<close>

lemma split_nonempty [simp]: "split sep xs \<noteq> []"
  by (induction xs) (auto split: list.splits)

lemma split_append:
  "split sep (xs @ ys) = butlast (split sep xs) @ split sep (last (split sep xs) @ ys)"
proof (induction xs)
  case Nil
  show ?case by simp
next
  case (Cons c cs)
  show ?case
  proof (cases "c = sep")
    case True
    with Cons show ?thesis by simp
  next
    case False
    obtain l ls where sp: "split sep cs = l # ls"
      by (cases "split sep cs") simp_all
    show ?thesis
    proof (cases "ls = []")
      case True
      with False sp Cons show ?thesis by simp
    next
      case ne: False
      obtain m ms where sp2: "split sep (last ls @ ys) = m # ms"
        by (cases "split sep (last ls @ ys)") simp_all
      from False sp Cons ne sp2 show ?thesis
        by (cases "butlast ls") (simp_all split: list.splits)
    qed
  qed
qed

lemma last_split_no_sep: "sep \<notin> set (last (split sep xs))"
  by (induction xs) (auto split: list.splits)

lemma split_no_sep: "sep \<notin> set xs \<Longrightarrow> split sep xs = [xs]"
  by (induction xs) auto

lemma split_at_sep: "sep \<notin> set xs \<Longrightarrow> split sep (xs @ sep # ys) = xs # split sep ys"
  by (induction xs) auto

lemma trim_Nil [simp]: "trim [] = []"
  by (simp add: trim_def)

lemma push_event_events: "events (snd (push_event ev s)) = events s @ [ev]"
  by (simp add: push_event_def Let_def split: sum.splits option.splits)

lemma emit_update_events: "events (snd (emit_update H ev s)) = events s"
  by (simp add: emit_update_def Let_def split: sum.splits option.splits)

lemma data_try_events:
  "events (snd (data_try H line s)) =
     (case JSON_parse H line of None \<Rightarrow> events s | Some ev \<Rightarrow> events s @ [ev])"
proof (cases "JSON_parse H line")
  case None
  then show ?thesis by (simp add: data_try_def)
next
  case (Some ev)
  obtain e s1 where p: "push_event ev s = (e, s1)" by (cases "push_event ev s")
  have "events s1 = events s @ [ev]" using push_event_events [of ev s] p by simp
  with Some p show ?thesis
    by (cases e) (simp_all add: data_try_def emit_update_events)
qed

lemma data_try_malformed: "JSON_parse H line = None \<Longrightarrow> snd (data_try H line s) = s"
  by (simp add: data_try_def)

lemma handle_line_no_throw: "fst (handle_line H line s) = None"
  by (simp add: handle_line_def catch_all_def)

lemma handle_line_events:
  "events (snd (handle_line H line s)) =
     events s @ (case line_event H line of None \<Rightarrow> [] | Some ev \<Rightarrow> [ev])"
  by (simp add: handle_line_def catch_all_def line_event_def data_try_events split: option.splits)

lemma handle_line_dropped: "line_event H line = None \<Longrightarrow> snd (handle_line H line s) = s"
  by (simp add: handle_line_def catch_all_def line_event_def data_try_malformed split: if_splits)

lemma handle_lines_no_throw: "fst (handle_lines H ls s) = None"
proof (induction ls arbitrary: s)
  case Nil
  show ?case by simp
next
  case (Cons l ls)
  obtain s' where "handle_line H l s = (None, s')"
    using handle_line_no_throw [of H l s] by (cases "handle_line H l s") auto
  with Cons.IH [of s'] show ?case by simp
qed

lemma handle_lines_events:
  "events (snd (handle_lines H ls s)) = events s @ List.map_filter (line_event H) ls"
proof (induction ls arbitrary: s)
  case Nil
  show ?case by (simp add: List.map_filter_simps)
next
  case (Cons l ls)
  obtain s' where h: "handle_line H l s = (None, s')"
    using handle_line_no_throw [of H l s] by (cases "handle_line H l s") auto
  have "events s' = events s @ (case line_event H l of None \<Rightarrow> [] | Some ev \<Rightarrow> [ev])"
    using handle_line_events [of H l s] h by simp
  then show ?case using Cons.IH [of s'] h
    by (simp add: List.map_filter_simps split: option.splits)
qed

lemma close_flush_no_throw: "fst (close_flush H s) = None"
  by (simp add: close_flush_def catch_all_def)

lemma close_flush_events:
  "events (snd (close_flush H s)) =
     events s @ (case line_event H (buffer s) of None \<Rightarrow> [] | Some ev \<Rightarrow> [ev])"
  by (simp add: close_flush_def catch_all_def line_event_def push_event_events
      split: option.splits)

lemma close_flush_fields:
  "settled (snd (close_flush H s)) = settled s"
  "outcome (snd (close_flush H s)) = outcome s"
  "signal (snd (close_flush H s)) = signal s"
  "stderr (snd (close_flush H s)) = stderr s"
  "spawned (snd (close_flush H s)) = spawned s"
  by (simp_all add: close_flush_def catch_all_def push_event_def Let_def
      split: option.splits sum.splits)

lemma stdout_text_eq:
  "stdout_text H chunk s =
     handle_lines H (butlast (split 10 (buffer s @ chunk)))
       (s\<lparr>buffer := last (split 10 (buffer s @ chunk))\<rparr>)"
  by (simp add: stdout_text_def pop_def)

text \<open>
  Claim C8. Every line the loop of the stdout handler takes adds exactly one event to
  \<open>events\<close>, at the end, when it is not blank and \<open>JSON.parse\<close> accepts it, and
  otherwise leaves the whole state as it was; no exception leaves the loop or the stdout
  handler, whatever \<open>formatEventForDisplay\<close> and the \<open>onUpdate\<close> callback throw.
  The close handler treats the leftover buffer the same way, and no exception leaves
  that part of it.
\<close>

theorem one_event_per_json_line:
  "fst (handle_line H line s) = None
   \<and> events (snd (handle_line H line s)) =
       events s @ (case line_event H line of None \<Rightarrow> [] | Some ev \<Rightarrow> [ev])
   \<and> (line_event H line = None \<longrightarrow> snd (handle_line H line s) = s)
   \<and> fst (handle_lines H lines s) = None
   \<and> events (snd (handle_lines H lines s)) = events s @ List.map_filter (line_event H) lines
   \<and> fst (on_stdout_data H data s) = None
   \<and> fst (close_flush H s) = None
   \<and> events (snd (close_flush H s)) =
       events s @ (case line_event H (buffer s) of None \<Rightarrow> [] | Some ev \<Rightarrow> [ev])"
  by (simp add: handle_line_no_throw handle_line_events handle_line_dropped
      handle_lines_no_throw handle_lines_events close_flush_no_throw close_flush_events
      on_stdout_data_def stdout_text_eq)

text \<open>
  An instance: of the four lines \<open>"a"\<close>, \<open>junk\<close>, the empty line and \<open>"b"\<close>, the first
  and the last give an event, and \<open>junk\<close> changes nothing.
\<close>

theorem one_event_per_json_line_witness:
  "line_event literal_host (js ''junk'') = None
   \<and> snd (handle_line literal_host (js ''junk'') (execute None None)) = execute None None
   \<and> fst (handle_lines literal_host [[34, 97, 34], js ''junk'', [], [34, 98, 34]] (execute None None))
       = None
   \<and> events (snd (handle_lines literal_host [[34, 97, 34], js ''junk'', [], [34, 98, 34]]
                     (execute None None)))
       = [JStr [97], JStr [98]]"
proof -
  have a: "line_event literal_host (js ''junk'') = None"
    by (simp add: line_event_def literal_host_def parse_string_literal_def js_def)
  have b: "List.map_filter (line_event literal_host) [[34, 97, 34], js ''junk'', [], [34, 98, 34]]
           = [JStr [97], JStr [98]]"
    by (simp add: List.map_filter_simps line_event_def literal_host_def parse_string_literal_def
        js_def trim_def is_ws_def)
  have c: "events (execute None None) = []" by (simp add: execute_def)
  from one_event_per_json_line [of literal_host "js ''junk''" "execute None None"
         "[[34, 97, 34], js ''junk'', [], [34, 98, 34]]"]
  show ?thesis using a b c by simp
qed

section \<open>The latest message\<close>

lemma push_event_lastMessage:
  "lastMessage (snd (push_event event s)) =
     (if get (Some event) (js ''type'') = Inr (Some (JStr (js ''item.completed'')))
      then (case agent_message_text event of Some t \<Rightarrow> t | None \<Rightarrow> lastMessage s)
      else lastMessage s)"
  by (simp add: push_event_def Let_def split: sum.splits option.splits)

text \<open>
  Claim C9, as the code has it. For every parsed event of type \<open>item.completed\<close> whose
  item is of type \<open>agent_message\<close>, \<open>lastMessage\<close> becomes the item's \<open>text\<close>, whatever
  it held before, when that text is truthy; when the text is missing or falsy (the empty
  string), \<open>lastMessage\<close> keeps its value.
\<close>

theorem agent_message_overwrites_when_truthy:
  assumes "opt_get (Some event) (js ''type'') = Some (JStr (js ''item.completed''))"
    and "opt_get (opt_get (Some event) (js ''item'')) (js ''type'')
           = Some (JStr (js ''agent_message''))"
  shows "lastMessage (snd (push_event event s)) =
           (case opt_get (opt_get (Some event) (js ''item'')) (js ''text'') of
              None \<Rightarrow> lastMessage s
            | Some t \<Rightarrow> if truthy (Some t) then t else lastMessage s)"
  using assms
  by (auto simp: push_event_lastMessage agent_message_text_def opt_get_def Let_def
      split: sum.splits option.splits)

lemma agent_message_event_shape:
  "opt_get (Some (agent_message_event t)) (js ''type'') = Some (JStr (js ''item.completed''))"
  "opt_get (opt_get (Some (agent_message_event t)) (js ''item'')) (js ''type'')
     = Some (JStr (js ''agent_message''))"
  "opt_get (opt_get (Some (agent_message_event t)) (js ''item'')) (js ''text'') = Some t"
  by (simp_all add: agent_message_event_def opt_get_def js_def)

text \<open>An instance: the message \<open>second\<close> replaces the message \<open>first\<close>.\<close>

theorem agent_message_overwrites_when_truthy_witness:
  "opt_get (Some (agent_message_event (JStr (js ''second'')))) (js ''type'')
     = Some (JStr (js ''item.completed''))
   \<and> opt_get (opt_get (Some (agent_message_event (JStr (js ''second'')))) (js ''item''))
        (js ''type'') = Some (JStr (js ''agent_message''))
   \<and> lastMessage (snd (push_event (agent_message_event (JStr (js ''second'')))
                          ((execute None None)\<lparr>lastMessage := JStr (js ''first'')\<rparr>)))
       = JStr (js ''second'')"
proof -
  have tr: "truthy (Some (JStr (js ''second'')))" by (simp add: js_def)
  from agent_message_overwrites_when_truthy
          [OF agent_message_event_shape(1) [of "JStr (js ''second'')"]
              agent_message_event_shape(2) [of "JStr (js ''second'')"],
           where s = "(execute None None)\<lparr>lastMessage := JStr (js ''first'')\<rparr>"]
  show ?thesis using tr by (simp add: agent_message_event_shape)
qed

text \<open>
  The claim as it was stated fails on an \<open>agent_message\<close> item whose text is the empty
  string: \<open>lastMessage\<close> is still \<open>first\<close> and not the item's text.
\<close>

theorem empty_text_keeps_lastMessage:
  "opt_get (Some (agent_message_event (JStr []))) (js ''type'')
     = Some (JStr (js ''item.completed''))
   \<and> opt_get (opt_get (Some (agent_message_event (JStr []))) (js ''item'')) (js ''type'')
       = Some (JStr (js ''agent_message''))
   \<and> opt_get (opt_get (Some (agent_message_event (JStr []))) (js ''item'')) (js ''text'')
       = Some (JStr [])
   \<and> lastMessage (snd (push_event (agent_message_event (JStr []))
                          ((execute None None)\<lparr>lastMessage := JStr (js ''first'')\<rparr>)))
       = JStr (js ''first'')
   \<and> JStr (js ''first'') \<noteq> JStr []"
  by (simp add: agent_message_event_shape push_event_lastMessage agent_message_text_def
      opt_get_def agent_message_event_def js_def Let_def)

section \<open>The result of the close handler\<close>

lemma to_string_printable:
  "(printable v \<longrightarrow> (\<exists>m. to_string H v = Inr m))
   \<and> (\<not> printable v \<longrightarrow> to_string H v = Inl TypeError)"
  "(printable_all xs \<longrightarrow> (\<exists>m. join_elements H xs = Inr m))
   \<and> (\<not> printable_all xs \<longrightarrow> join_elements H xs = Inl TypeError)"
  by (induction H v and H xs rule: to_string_join_elements.induct) auto

lemma printable_or_default: "printable (or_default v d) = printable v"
  by (cases v) (simp_all add: or_default_def)

lemma build_result_cases:
  "build_result H code s =
     (if signal s = Some True then
        (case to_string H (or_default (lastMessage s) (js ''(no output)'')) of
           Inl e \<Rightarrow> Inl e
         | Inr shown \<Rightarrow>
             Inr \<lparr>content_text =
                    JStr (js ''Codex execution aborted.\<newline>\<newline>Partial output:\<newline>''
                          @ shown),
                  details = \<lparr>d_events = events s, d_exitCode = code, d_streaming = False,
                              d_lastMessage = Some (lastMessage s),
                              d_error = Some (js ''aborted'')\<rparr>\<rparr>)
      else (case code of
              None \<Rightarrow>
                Inr \<lparr>content_text =
                       or_default (lastMessage s) (js ''(Codex completed with no message output)''),
                     details = \<lparr>d_events = events s, d_exitCode = None, d_streaming = False,
                                 d_lastMessage = Some (lastMessage s), d_error = None\<rparr>\<rparr>
            | Some c \<Rightarrow>
                if c = 0 then
                  Inr \<lparr>content_text =
                         or_default (lastMessage s) (js ''(Codex completed with no message output)''),
                       details = \<lparr>d_events = events s, d_exitCode = Some 0, d_streaming = False,
                                   d_lastMessage = Some (lastMessage s), d_error = None\<rparr>\<rparr>
                else
                  (case to_string H (or_default (lastMessage s) (js ''(no output)'')) of
                     Inl e \<Rightarrow> Inl e
                   | Inr shown \<Rightarrow>
                       Inr \<lparr>content_text =
                              JStr (js ''Codex exited with code '' @ Number_toString H (of_int c) @
                                    js ''.\<newline>\<newline>Stderr:\<newline>'' @
                                    (if stderr s \<noteq> [] then stderr s else js ''(no stderr)'') @
                                    js ''\<newline>\<newline>Output:\<newline>'' @ shown),
                            details = \<lparr>d_events = events s, d_exitCode = Some c,
                                        d_streaming = False,
                                        d_lastMessage = Some (lastMessage s),
                                        d_error = Some (stderr s)\<rparr>\<rparr>)))"
  by (simp add: build_result_def template_def Let_def split: option.splits sum.splits)

lemma on_close_resolved:
  assumes "\<not> settled s"
    and "build_result H code (snd (close_flush H (s\<lparr>listening := False\<rparr>))) = Inr r"
  shows "on_close H code s =
           (None, safeResolve r (snd (close_flush H (s\<lparr>listening := False\<rparr>))))"
    and "outcome (snd (on_close H code s)) = outcome s @ [Resolved r]"
    and "settled (snd (on_close H code s))"
  using assms close_flush_no_throw [of H "s\<lparr>listening := False\<rparr>"]
        close_flush_fields(1,2) [of H "s\<lparr>listening := False\<rparr>"]
  by (cases "close_flush H (s\<lparr>listening := False\<rparr>)"; simp add: on_close_def safeResolve_def)+

lemma on_close_thrown:
  assumes "build_result H code (snd (close_flush H (s\<lparr>listening := False\<rparr>))) = Inl e"
  shows "on_close H code s = (Some e, snd (close_flush H (s\<lparr>listening := False\<rparr>)))"
  using assms close_flush_no_throw [of H "s\<lparr>listening := False\<rparr>"]
  by (cases "close_flush H (s\<lparr>listening := False\<rparr>)") (simp add: on_close_def)

lemma on_close_events:
  "events (snd (on_close H code s)) = events (snd (close_flush H (s\<lparr>listening := False\<rparr>)))"
  using close_flush_no_throw [of H "s\<lparr>listening := False\<rparr>"]
  by (cases "close_flush H (s\<lparr>listening := False\<rparr>)")
     (simp add: on_close_def safeResolve_def split: sum.splits)

text \<open>
  Claim C7. Whenever the close handler settles the operation and \<open>signal.aborted\<close> is
  true, the result has the error tag \<open>aborted\<close>, the last message captured and the
  exit code as it came, whatever the exit code, also a non-zero one, and its text is the
  text of the aborted outcome with the last message (or \<open>(no output)\<close>) converted to a
  string; whenever it settles with the signal not aborted, a non-zero exit code gives
  the failed result, whose error is the captured stderr text, and a zero or null exit
  code gives no error. The handler settles in each of these cases, except when the last
  message is a value whose conversion to a string throws: then the exception leaves the
  handler and nothing is resolved. The other place that reads the flag, before the
  child is spawned, resolves with the error tag \<open>aborted\<close> too.
\<close>

theorem close_abort_precedence:
  assumes "\<not> settled s"
    and "s1 = snd (close_flush H (s\<lparr>listening := False\<rparr>))"
    and "message = (if truthy (Some (lastMessage s1)) then lastMessage s1
                    else JStr (js ''(no output)''))"
  shows "(\<forall>r. outcome (snd (on_close H code s)) = outcome s @ [Resolved r] \<and> signal s = Some True
              \<longrightarrow> d_error (details r) = Some (js ''aborted'')
                  \<and> d_lastMessage (details r) = Some (lastMessage s1)
                  \<and> d_exitCode (details r) = code)
       \<and> (\<forall>r. outcome (snd (on_close H code s)) = outcome s @ [Resolved r]
                \<and> signal s \<noteq> Some True
              \<longrightarrow> d_lastMessage (details r) = Some (lastMessage s1)
                  \<and> d_exitCode (details r) = code
                  \<and> d_error (details r) =
                        (if code \<noteq> None \<and> code \<noteq> Some 0 then Some (stderr s) else None))
       \<and> (signal s = Some True \<and> to_string H message = Inr shown \<longrightarrow>
            outcome (snd (on_close H code s)) =
              outcome s @
              [Resolved
                 \<lparr>content_text =
                    JStr (js ''Codex execution aborted.\<newline>\<newline>Partial output:\<newline>''
                          @ shown),
                  details = \<lparr>d_events = events s1, d_exitCode = code, d_streaming = False,
                              d_lastMessage = Some (lastMessage s1),
                              d_error = Some (js ''aborted'')\<rparr>\<rparr>])
       \<and> (signal s \<noteq> Some True \<and> code = Some c \<and> c \<noteq> 0
             \<and> to_string H message = Inr shown \<longrightarrow>
            outcome (snd (on_close H code s)) =
              outcome s @
              [Resolved
                 \<lparr>content_text =
                    JStr (js ''Codex exited with code '' @ Number_toString H (of_int c) @
                          js ''.\<newline>\<newline>Stderr:\<newline>'' @
                          (if stderr s \<noteq> [] then stderr s else js ''(no stderr)'') @
                          js ''\<newline>\<newline>Output:\<newline>'' @ shown),
                  details = \<lparr>d_events = events s1, d_exitCode = code, d_streaming = False,
                              d_lastMessage = Some (lastMessage s1),
                              d_error = Some (stderr s)\<rparr>\<rparr>])
       \<and> (signal s \<noteq> Some True \<and> (code = None \<or> code = Some 0) \<longrightarrow>
            (\<exists>r. outcome (snd (on_close H code s)) = outcome s @ [Resolved r]
                 \<and> d_error (details r) = None))
       \<and> ((signal s = Some True \<or> (code \<noteq> None \<and> code \<noteq> Some 0))
             \<and> to_string H message = Inl e \<longrightarrow>
            outcome (snd (on_close H code s)) = outcome s
            \<and> fst (on_close H code s) = Some e)
       \<and> (printable (lastMessage s1) \<longrightarrow> (\<exists>shown. to_string H message = Inr shown))
       \<and> outcome (execute (Some True) sp) = [Resolved aborted_before_start]
       \<and> d_error (details aborted_before_start) = Some (js ''aborted'')"
proof -
  let ?c = "snd (on_close H code s)"
  have sg: "signal s1 = signal s" and se: "stderr s1 = stderr s"
    and ns: "\<not> settled s1" and oc: "outcome s1 = outcome s"
    using close_flush_fields(1-4) [of H "s\<lparr>listening := False\<rparr>"] assms(1,2) by simp_all
  have msg: "message = or_default (lastMessage s1) (js ''(no output)'')"
    using assms(3) by (simp add: or_default_def)
  have res: "outcome ?c = outcome s @ [Resolved r]" if "build_result H code s1 = Inr r" for r
    using on_close_resolved(2) [OF assms(1), of H code r] that assms(2) by simp
  have thr: "outcome ?c = outcome s \<and> fst (on_close H code s) = Some e'"
    if "build_result H code s1 = Inl e'" for e'
    using on_close_thrown [of H code s e'] that assms(2) oc by simp
  have shape: "d_lastMessage (details r) = Some (lastMessage s1) \<and> d_exitCode (details r) = code
      \<and> d_error (details r) =
            (if signal s = Some True then Some (js ''aborted'')
             else if code \<noteq> None \<and> code \<noteq> Some 0 then Some (stderr s) else None)"
    if "outcome ?c = outcome s @ [Resolved r]" for r
  proof (cases "build_result H code s1")
    case (Inl e')
    with thr [of e'] that show ?thesis by simp
  next
    case (Inr r')
    with res [of r'] that have "r' = r" by simp
    with Inr show ?thesis
      unfolding build_result_cases sg se
      by (auto split: if_splits option.splits sum.splits)
  qed
  have a: "\<forall>r. outcome ?c = outcome s @ [Resolved r] \<and> signal s = Some True
              \<longrightarrow> d_error (details r) = Some (js ''aborted'')
                  \<and> d_lastMessage (details r) = Some (lastMessage s1)
                  \<and> d_exitCode (details r) = code"
    using shape by auto
  have b: "\<forall>r. outcome ?c = outcome s @ [Resolved r] \<and> signal s \<noteq> Some True
              \<longrightarrow> d_lastMessage (details r) = Some (lastMessage s1)
                  \<and> d_exitCode (details r) = code
                  \<and> d_error (details r) =
                        (if code \<noteq> None \<and> code \<noteq> Some 0 then Some (stderr s) else None)"
    using shape by auto
  have c: "signal s = Some True \<and> to_string H message = Inr shown \<longrightarrow>
            outcome ?c =
              outcome s @
              [Resolved
                 \<lparr>content_text =
                    JStr (js ''Codex execution aborted.\<newline>\<newline>Partial output:\<newline>''
                          @ shown),
                  details = \<lparr>d_events = events s1, d_exitCode = code, d_streaming = False,
                              d_lastMessage = Some (lastMessage s1),
                              d_error = Some (js ''aborted'')\<rparr>\<rparr>]"
  proof (intro impI, elim conjE)
    assume "signal s = Some True" "to_string H message = Inr shown"
    then have "build_result H code s1 =
       Inr \<lparr>content_text =
                    JStr (js ''Codex execution aborted.\<newline>\<newline>Partial output:\<newline>''
                          @ shown),
                  details = \<lparr>d_events = events s1, d_exitCode = code, d_streaming = False,
                              d_lastMessage = Some (lastMessage s1),
                              d_error = Some (js ''aborted'')\<rparr>\<rparr>"
      by (simp add: build_result_cases sg msg)
    then show "outcome ?c =
              outcome s @
              [Resolved
                 \<lparr>content_text =
                    JStr (js ''Codex execution aborted.\<newline>\<newline>Partial output:\<newline>''
                          @ shown),
                  details = \<lparr>d_events = events s1, d_exitCode = code, d_streaming = False,
                              d_lastMessage = Some (lastMessage s1),
                              d_error = Some (js ''aborted'')\<rparr>\<rparr>]"
      by (rule res)
  qed
  have d: "signal s \<noteq> Some True \<and> code = Some c \<and> c \<noteq> 0
             \<and> to_string H message = Inr shown \<longrightarrow>
            outcome ?c =
              outcome s @
              [Resolved
                 \<lparr>content_text =
                    JStr (js ''Codex exited with code '' @ Number_toString H (of_int c) @
                          js ''.\<newline>\<newline>Stderr:\<newline>'' @
                          (if stderr s \<noteq> [] then stderr s else js ''(no stderr)'') @
                          js ''\<newline>\<newline>Output:\<newline>'' @ shown),
                  details = \<lparr>d_events = events s1, d_exitCode = code, d_streaming = False,
                              d_lastMessage = Some (lastMessage s1),
                              d_error = Some (stderr s)\<rparr>\<rparr>]"
  proof (intro impI, elim conjE)
    assume "signal s \<noteq> Some True" "code = Some c" "c \<noteq> 0" "to_string H message = Inr shown"
    then have "build_result H code s1 =
       Inr \<lparr>content_text =
                    JStr (js ''Codex exited with code '' @ Number_toString H (of_int c) @
                          js ''.\<newline>\<newline>Stderr:\<newline>'' @
                          (if stderr s \<noteq> [] then stderr s else js ''(no stderr)'') @
                          js ''\<newline>\<newline>Output:\<newline>'' @ shown),
                  details = \<lparr>d_events = events s1, d_exitCode = code, d_streaming = False,
                              d_lastMessage = Some (lastMessage s1),
                              d_error = Some (stderr s)\<rparr>\<rparr>"
      by (simp add: build_result_cases sg se msg)
    then show "outcome ?c =
              outcome s @
              [Resolved
                 \<lparr>content_text =
                    JStr (js ''Codex exited with code '' @ Number_toString H (of_int c) @
                          js ''.\<newline>\<newline>Stderr:\<newline>'' @
                          (if stderr s \<noteq> [] then stderr s else js ''(no stderr)'') @
                          js ''\<newline>\<newline>Output:\<newline>'' @ shown),
                  details = \<lparr>d_events = events s1, d_exitCode = code, d_streaming = False,
                              d_lastMessage = Some (lastMessage s1),
                              d_error = Some (stderr s)\<rparr>\<rparr>]"
      by (rule res)
  qed
  have e: "signal s \<noteq> Some True \<and> (code = None \<or> code = Some 0) \<longrightarrow>
            (\<exists>r. outcome ?c = outcome s @ [Resolved r] \<and> d_error (details r) = None)"
  proof (intro impI, elim conjE)
    assume "signal s \<noteq> Some True" "code = None \<or> code = Some 0"
    then obtain r where "build_result H code s1 = Inr r" "d_error (details r) = None"
      by (auto simp: build_result_cases sg)
    with res [of r] show "\<exists>r. outcome ?c = outcome s @ [Resolved r] \<and> d_error (details r) = None"
      by blast
  qed
  have f: "(signal s = Some True \<or> (code \<noteq> None \<and> code \<noteq> Some 0))
             \<and> to_string H message = Inl e \<longrightarrow>
            outcome ?c = outcome s \<and> fst (on_close H code s) = Some e"
  proof (intro impI, elim conjE)
    assume "signal s = Some True \<or> (code \<noteq> None \<and> code \<noteq> Some 0)"
      "to_string H message = Inl e"
    then have "build_result H code s1 = Inl e"
      by (auto simp: build_result_cases sg msg)
    then show "outcome ?c = outcome s \<and> fst (on_close H code s) = Some e"
      by (rule thr)
  qed
  have g: "printable (lastMessage s1) \<longrightarrow> (\<exists>shown. to_string H message = Inr shown)"
    using to_string_printable(1) [of message H] printable_or_default [of "lastMessage s1"]
    by (simp add: msg)
  have h: "outcome (execute (Some True) sp) = [Resolved aborted_before_start]"
    by (simp add: execute_def safeResolve_def Let_def)
  have i: "d_error (details aborted_before_start) = Some (js ''aborted'')"
    by (simp add: aborted_before_start_def)
  from a b c d e f g h i show ?thesis by blast
qed

text \<open>
  An instance: the child wrote \<open>boom\<close> to stderr, the signal aborted, and the child
  closed with exit code 1. The result is the aborted one.
\<close>

theorem close_abort_precedence_witness:
  "\<not> settled (run quiet_host (execute (Some False) None)
                [StderrData [0x62, 0x6F, 0x6F, 0x6D], Abort True])
   \<and> signal (run quiet_host (execute (Some False) None)
                [StderrData [0x62, 0x6F, 0x6F, 0x6D], Abort True]) = Some True
   \<and> to_string quiet_host (JStr (js ''(no output)'')) = Inr (js ''(no output)'')
   \<and> outcome (snd (on_close quiet_host (Some 1)
        (run quiet_host (execute (Some False) None)
           [StderrData [0x62, 0x6F, 0x6F, 0x6D], Abort True])))
     = [Resolved
          \<lparr>content_text =
             JStr (js ''Codex execution aborted.\<newline>\<newline>Partial output:\<newline>''
                   @ js ''(no output)''),
           details = \<lparr>d_events = [], d_exitCode = Some 1, d_streaming = False,
                       d_lastMessage = Some (JStr []), d_error = Some (js ''aborted'')\<rparr>\<rparr>]"
proof -
  let ?s = "run quiet_host (execute (Some False) None)
              [StderrData [0x62, 0x6F, 0x6F, 0x6D], Abort True]"
  have s: "?s = \<lparr>events = [], lastMessage = JStr [], settled = False, outcome = [],
                spawned = True, buffer = [], stderr = js ''boom'', signal = Some True,
                listening = False, killed = True, sent = [SIGTERM], timers = 1,
                updates = []\<rparr>"
    by (simp add: run_def step_def execute_def on_stderr_data_def signal_abort_def onAbort_def
        Buffer_toString_def utf8_lead_def utf8_idle_def js_def Let_def)
  have ns: "\<not> settled ?s" and sg: "signal ?s = Some True" by (simp_all add: s)
  have fl: "snd (close_flush quiet_host (?s\<lparr>listening := False\<rparr>)) = ?s"
    unfolding s by (simp add: close_flush_def)
  have m: "JStr (js ''(no output)'') =
        (if truthy (Some (lastMessage ?s)) then lastMessage ?s else JStr (js ''(no output)''))"
    by (simp add: s)
  have ts: "to_string quiet_host (JStr (js ''(no output)'')) = Inr (js ''(no output)'')"
    by simp
  from close_abort_precedence [OF ns fl [symmetric] m,
         where shown = "js ''(no output)''" and code = "Some 1"]
  show ?thesis using ns sg ts by (simp add: s)
qed

text \<open>
  Claim C10. When the child closes with a null exit code and the signal is not aborted,
  the operation is resolved with the result of success: no error, \<open>exitCode\<close> null, and
  as text the last message captured when there is one (a truthy value) and the
  placeholder otherwise. This branch converts nothing to a string, so the handler always
  gets to \<open>safeResolve\<close>.
\<close>

theorem null_exit_code_is_success:
  assumes "\<not> settled s"
    and "signal s \<noteq> Some True"
    and "s1 = snd (close_flush H (s\<lparr>listening := False\<rparr>))"
  shows "outcome (snd (on_close H None s)) =
           outcome s @
           [Resolved
              \<lparr>content_text =
                 (if truthy (Some (lastMessage s1)) then lastMessage s1
                  else JStr (js ''(Codex completed with no message output)'')),
               details = \<lparr>d_events = events s1, d_exitCode = None, d_streaming = False,
                           d_lastMessage = Some (lastMessage s1), d_error = None\<rparr>\<rparr>]
         \<and> (lastMessage s1 = JStr m \<and> m \<noteq> [] \<longrightarrow>
               (\<exists>d. outcome (snd (on_close H None s)) =
                     outcome s @ [Resolved \<lparr>content_text = JStr m, details = d\<rparr>]))
         \<and> fst (on_close H None s) = None"
proof -
  have sg: "signal s1 = signal s"
    using close_flush_fields(3) [of H "s\<lparr>listening := False\<rparr>"] assms(3) by simp
  have br: "build_result H None s1 =
          Inr \<lparr>content_text =
                 (if truthy (Some (lastMessage s1)) then lastMessage s1
                  else JStr (js ''(Codex completed with no message output)'')),
               details = \<lparr>d_events = events s1, d_exitCode = None, d_streaming = False,
                           d_lastMessage = Some (lastMessage s1), d_error = None\<rparr>\<rparr>"
    using assms(2) sg by (simp add: build_result_cases or_default_def)
  from on_close_resolved(1,2) [OF assms(1) br [unfolded assms(3)]]
  show ?thesis unfolding assms(3) by auto
qed

text \<open>
  Two instances: a child closed by a signal after the message \<open>done\<close> was captured,
  and one closed before it wrote anything.
\<close>

theorem null_exit_code_is_success_witness:
  "\<not> settled ((execute None None)\<lparr>lastMessage := JStr (js ''done'')\<rparr>)
   \<and> signal ((execute None None)\<lparr>lastMessage := JStr (js ''done'')\<rparr>) \<noteq> Some True
   \<and> outcome (snd (on_close quiet_host None
                     ((execute None None)\<lparr>lastMessage := JStr (js ''done'')\<rparr>))) =
       [Resolved
          \<lparr>content_text = JStr (js ''done''),
           details = \<lparr>d_events = [], d_exitCode = None, d_streaming = False,
                       d_lastMessage = Some (JStr (js ''done'')), d_error = None\<rparr>\<rparr>]
   \<and> outcome (snd (on_close quiet_host None (execute None None))) =
       [Resolved
          \<lparr>content_text = JStr (js ''(Codex completed with no message output)''),
           details = \<lparr>d_events = [], d_exitCode = None, d_streaming = False,
                       d_lastMessage = Some (JStr []), d_error = None\<rparr>\<rparr>]"
proof -
  let ?s = "(execute None None)\<lparr>lastMessage := JStr (js ''done'')\<rparr>"
  have a: "\<not> settled ?s" and b: "signal ?s \<noteq> Some True"
    and a': "\<not> settled (execute None None)" and b': "signal (execute None None) \<noteq> Some True"
    by (simp_all add: execute_def)
  have fl: "snd (close_flush quiet_host (?s\<lparr>listening := False\<rparr>)) = ?s\<lparr>listening := False\<rparr>"
    and fl': "snd (close_flush quiet_host ((execute None None)\<lparr>listening := False\<rparr>))
              = (execute None None)\<lparr>listening := False\<rparr>"
    by (simp_all add: close_flush_def execute_def)
  have t: "truthy (Some (JStr (js ''done'')))" by (simp add: js_def)
  from null_exit_code_is_success [OF a b fl [symmetric]]
       null_exit_code_is_success [OF a' b' fl' [symmetric]]
  show ?thesis using a b t by (simp add: execute_def)
qed

section \<open>Settlement\<close>

lemma handle_lines_fields:
  "settled (snd (handle_lines H ls s)) = settled s \<and>
   outcome (snd (handle_lines H ls s)) = outcome s \<and>
   spawned (snd (handle_lines H ls s)) = spawned s \<and>
   buffer (snd (handle_lines H ls s)) = buffer s"
proof (induction ls arbitrary: s)
  case Nil
  show ?case by simp
next
  case (Cons l ls)
  have one: "settled (snd (handle_line H l s)) = settled s \<and>
        outcome (snd (handle_line H l s)) = outcome s \<and>
        spawned (snd (handle_line H l s)) = spawned s \<and>
        buffer (snd (handle_line H l s)) = buffer s"
    by (simp add: handle_line_def catch_all_def data_try_def push_event_def emit_update_def Let_def
        split: option.splits sum.splits prod.splits)
  obtain e s' where h: "handle_line H l s = (e, s')" by (cases "handle_line H l s")
  show ?case using one Cons.IH [of s'] h by (cases e) auto
qed

lemma stdout_fields:
  "settled (snd (on_stdout_data H d s)) = settled s \<and>
   outcome (snd (on_stdout_data H d s)) = outcome s \<and>
   spawned (snd (on_stdout_data H d s)) = spawned s"
  by (simp add: on_stdout_data_def stdout_text_eq handle_lines_fields)

lemma build_result_settling:
  "(\<exists>r. build_result H code s = Inr r) \<longleftrightarrow>
     (if signal s = Some True \<or> (code \<noteq> None \<and> code \<noteq> Some 0)
      then printable (lastMessage s) else True)"
proof -
  let ?m = "or_default (lastMessage s) (js ''(no output)'')"
  have p: "printable ?m = printable (lastMessage s)" by (rule printable_or_default)
  show ?thesis
  proof (cases "printable (lastMessage s)")
    case True
    then obtain m where "to_string H ?m = Inr m"
      using to_string_printable(1) [of ?m H] p by auto
    with True show ?thesis by (auto simp: build_result_cases split: option.splits)
  next
    case False
    then have "to_string H ?m = Inl TypeError"
      using to_string_printable(1) [of ?m H] p by auto
    with False show ?thesis by (auto simp: build_result_cases split: option.splits)
  qed
qed

lemma settling_close:
  "settling H s (Close code) \<longleftrightarrow>
     (\<exists>r. build_result H code (snd (close_flush H (s\<lparr>listening := False\<rparr>))) = Inr r)"
  using close_flush_fields(3) [of H "s\<lparr>listening := False\<rparr>"]
  by (simp add: build_result_settling)

lemma on_close_fields:
  "spawned (snd (on_close H code s)) = spawned s"
proof (cases "build_result H code (snd (close_flush H (s\<lparr>listening := False\<rparr>)))")
  case (Inl e)
  from on_close_thrown [OF Inl] close_flush_fields(5) [of H "s\<lparr>listening := False\<rparr>"]
  show ?thesis by simp
next
  case (Inr r)
  obtain e s1 where cf: "close_flush H (s\<lparr>listening := False\<rparr>) = (e, s1)"
    by (cases "close_flush H (s\<lparr>listening := False\<rparr>)")
  with Inr close_flush_no_throw [of H "s\<lparr>listening := False\<rparr>"]
    close_flush_fields(5) [of H "s\<lparr>listening := False\<rparr>"]
  show ?thesis by (simp add: on_close_def safeResolve_def)
qed

lemma on_close_settled_noop:
  assumes "settled s"
  shows "settled (snd (on_close H code s)) \<and> outcome (snd (on_close H code s)) = outcome s"
proof -
  obtain e s1 where cf: "close_flush H (s\<lparr>listening := False\<rparr>) = (e, s1)"
    by (cases "close_flush H (s\<lparr>listening := False\<rparr>)")
  have "settled s1" "outcome s1 = outcome s" "e = None"
    using close_flush_fields(1,2) [of H "s\<lparr>listening := False\<rparr>"]
      close_flush_no_throw [of H "s\<lparr>listening := False\<rparr>"] cf assms by simp_all
  with cf show ?thesis
    by (cases "build_result H code s1") (simp_all add: on_close_def safeResolve_def)
qed

lemma step_settled_noop:
  assumes "settled s"
  shows "settled (step H s t) \<and> outcome (step H s t) = outcome s"
proof (cases "spawned s")
  case False
  with assms show ?thesis by (simp add: step_def)
next
  case True
  show ?thesis
  proof (cases t)
    case (StdoutData d)
    with True assms show ?thesis by (simp add: step_def stdout_fields)
  next
    case (StderrData d)
    with True assms show ?thesis by (simp add: step_def on_stderr_data_def)
  next
    case (Close code)
    with True on_close_settled_noop [OF assms, of H code] show ?thesis
      by (simp add: step_def)
  next
    case (SpawnError code message)
    with True assms show ?thesis by (simp add: step_def on_error_def safeReject_def)
  next
    case (Abort delivered)
    with True assms show ?thesis
      by (simp add: step_def signal_abort_def onAbort_def Let_def)
  next
    case (KillTimeout delivered)
    with True assms show ?thesis by (simp add: step_def force_kill_def)
  qed
qed

lemma run_settled_noop:
  "settled s \<Longrightarrow> settled (run H s ts) \<and> outcome (run H s ts) = outcome s"
proof (induction ts arbitrary: s)
  case Nil
  then show ?case by (simp add: run_def)
next
  case (Cons t ts)
  have "settled (step H s t)" "outcome (step H s t) = outcome s"
    using step_settled_noop [OF Cons.prems] by simp_all
  with Cons.IH [of "step H s t"] show ?case by (simp add: run_def)
qed

lemma run_not_spawned: "\<not> spawned s \<Longrightarrow> run H s ts = s"
  by (induction ts) (simp_all add: run_def step_def)

lemma step_unsettled:
  assumes "\<not> settled s" "spawned s" "outcome s = []"
  shows "spawned (step H s t) \<and>
         (if settling H s t then settled (step H s t) \<and> length (outcome (step H s t)) = 1
          else \<not> settled (step H s t) \<and> outcome (step H s t) = [])"
proof (cases t)
  case (StdoutData d)
  with assms show ?thesis by (simp add: step_def stdout_fields)
next
  case (StderrData d)
  with assms show ?thesis by (simp add: step_def on_stderr_data_def)
next
  case (Close code)
  let ?s1 = "snd (close_flush H (s\<lparr>listening := False\<rparr>))"
  have sp: "spawned (step H s t)"
    using Close assms(2) on_close_fields [of H code s] by (simp add: step_def)
  show ?thesis
  proof (cases "build_result H code ?s1")
    case (Inl e)
    have f: "\<not> settled ?s1" "outcome ?s1 = []"
      using close_flush_fields(1,2) [of H "s\<lparr>listening := False\<rparr>"] assms by simp_all
    from Inl have "\<not> settling H s (Close code)" unfolding settling_close by simp
    with Close assms(2) sp f on_close_thrown [OF Inl] show ?thesis
      by (simp add: step_def)
  next
    case (Inr r)
    then have "settling H s (Close code)" unfolding settling_close by blast
    with Close assms sp on_close_resolved(2,3) [OF assms(1) Inr] show ?thesis
      by (simp add: step_def)
  qed
next
  case (SpawnError code message)
  with assms show ?thesis by (simp add: step_def on_error_def safeReject_def)
next
  case (Abort delivered)
  with assms show ?thesis
    by (simp add: step_def signal_abort_def onAbort_def Let_def)
next
  case (KillTimeout delivered)
  with assms show ?thesis by (simp add: step_def force_kill_def)
qed

lemma run_unsettled:
  assumes "\<not> settled s" "spawned s" "outcome s = []"
  shows "length (outcome (run H s ts)) = (if reaches_settlement H s ts then 1 else 0) \<and>
         settled (run H s ts) = reaches_settlement H s ts"
  using assms
proof (induction ts arbitrary: s)
  case Nil
  then show ?case by (simp add: run_def)
next
  case (Cons t ts)
  note st = step_unsettled [OF Cons.prems, of H t]
  show ?case
  proof (cases "settling H s t")
    case True
    with st have a: "settled (step H s t)" "length (outcome (step H s t)) = 1" by simp_all
    from run_settled_noop [OF a(1), of H ts] a True show ?thesis by (simp add: run_def)
  next
    case False
    with st have "\<not> settled (step H s t)" "spawned (step H s t)" "outcome (step H s t) = []"
      by simp_all
    from Cons.IH [OF this] False show ?thesis by (simp add: run_def)
  qed
qed

lemma settling_settles: "settling H s t \<Longrightarrow> settles t"
  by (cases t) simp_all

lemma reaches_needs_settles: "reaches_settlement H s ts \<Longrightarrow> list_ex settles ts"
  by (induction ts arbitrary: s) (auto dest: settling_settles split: if_splits)

lemma spawn_error_reaches: "SpawnError c m \<in> set ts \<Longrightarrow> reaches_settlement H s ts"
  by (induction ts arbitrary: s) auto

lemma run_append: "run H s (ts @ us) = run H (run H s ts) us"
  by (simp add: run_def)

lemma execute_cases:
  "sig = Some True \<Longrightarrow>
     settled (execute sig sp) \<and> outcome (execute sig sp) = [Resolved aborted_before_start]
     \<and> \<not> spawned (execute sig sp)"
  "sig \<noteq> Some True \<Longrightarrow> sp = Some e \<Longrightarrow>
     outcome (execute sig sp) = [Rejected e] \<and> \<not> spawned (execute sig sp)"
  "sig \<noteq> Some True \<Longrightarrow> sp = None \<Longrightarrow>
     \<not> settled (execute sig sp) \<and> outcome (execute sig sp) = [] \<and> spawned (execute sig sp)"
  by (simp_all add: execute_def safeResolve_def Let_def)

text \<open>
  Claim C1, as the code has it. For every invocation and every sequence of triggers, in
  any number and order, the promise is resolved or rejected at most once. It is settled
  exactly once when the signal was already aborted at the call, when \<open>spawn\<close> throws
  (the exception rejects the promise), or when the handler of one of the triggers gets
  to \<open>safeResolve\<close> or \<open>safeReject\<close>: the error handler always does, the close
  handler does unless its template literal throws on the last message. Otherwise it is
  not settled at all: in particular not by cancellation requests and kill timers alone.
  Once the promise is settled no later trigger changes the outcome, and \<open>safeResolve\<close>
  and \<open>safeReject\<close> do nothing.
\<close>

theorem settlement_at_most_once:
  "length (outcome (run H (execute sig sp) ts)) \<le> 1
   \<and> length (outcome (run H (execute sig sp) ts))
       = (if sig = Some True \<or> sp \<noteq> None \<or> reaches_settlement H (execute sig sp) ts
          then 1 else 0)
   \<and> (sig = Some True \<longrightarrow>
        outcome (run H (execute sig sp) ts) = [Resolved aborted_before_start])
   \<and> (sig \<noteq> Some True \<and> sp = Some e \<longrightarrow> outcome (run H (execute sig sp) ts) = [Rejected e])
   \<and> (sig \<noteq> Some True \<and> sp = None \<and> SpawnError c m \<in> set ts \<longrightarrow>
        length (outcome (run H (execute sig sp) ts)) = 1)
   \<and> (sig \<noteq> Some True \<and> sp = None \<and> \<not> list_ex settles ts \<longrightarrow>
        outcome (run H (execute sig sp) ts) = [])
   \<and> (settled (run H (execute sig sp) ts) \<longrightarrow>
        outcome (run H (execute sig sp) (ts @ us)) = outcome (run H (execute sig sp) ts))
   \<and> (settled s \<longrightarrow> safeResolve v s = s \<and> safeReject err s = s)"
proof -
  have last: "settled s \<longrightarrow> safeResolve v s = s \<and> safeReject err s = s"
    by (simp add: safeResolve_def safeReject_def)
  have later: "settled (run H (execute sig sp) ts) \<longrightarrow>
        outcome (run H (execute sig sp) (ts @ us)) = outcome (run H (execute sig sp) ts)"
    by (simp add: run_append run_settled_noop)
  show ?thesis
  proof (cases "sig = Some True")
    case True
    from execute_cases(1) [OF True, of sp] run_not_spawned [of "execute sig sp" H ts]
    show ?thesis using True last later by simp
  next
    case False
    show ?thesis
    proof (cases sp)
      case (Some e')
      from execute_cases(2) [OF False Some] run_not_spawned [of "execute sig sp" H ts]
      show ?thesis using False Some last later by auto
    next
      case None
      note ex = execute_cases(3) [OF False None]
      from ex have u: "\<not> settled (execute sig sp)" "spawned (execute sig sp)"
        "outcome (execute sig sp) = []" by simp_all
      note ru = run_unsettled [OF u, of H ts]
      have a: "SpawnError c m \<in> set ts \<longrightarrow> length (outcome (run H (execute sig sp) ts)) = 1"
        using ru spawn_error_reaches [of c m ts H "execute sig sp"] by auto
      have b: "\<not> list_ex settles ts \<longrightarrow> outcome (run H (execute sig sp) ts) = []"
        using ru reaches_needs_settles [of H "execute sig sp" ts] by auto
      show ?thesis using False None ru a b last later by simp
    qed
  qed
qed

text \<open>
  Instances: after a cancellation and the close that follows it, a late spawn error
  and a second close change nothing; a \<open>spawn\<close> that throws rejects the promise once;
  a cancellation and the kill timer settle nothing; a signal already aborted at the
  call gives the one result of the check before the start.
\<close>

theorem settlement_at_most_once_witness:
  "settled (run quiet_host (execute (Some False) None) [Abort True, Close None])
   \<and> SpawnError (Some (js ''ENOENT'')) []
        \<in> set ([Abort True, Close None] @ [SpawnError (Some (js ''ENOENT'')) [], Close (Some 1)])
   \<and> length (outcome (run quiet_host (execute (Some False) None)
               ([Abort True, Close None] @ [SpawnError (Some (js ''ENOENT'')) [], Close (Some 1)])))
       = 1
   \<and> outcome (run quiet_host (execute (Some False) None)
               ([Abort True, Close None] @ [SpawnError (Some (js ''ENOENT'')) [], Close (Some 1)]))
       = outcome (run quiet_host (execute (Some False) None) [Abort True, Close None])
   \<and> safeReject TypeError (run quiet_host (execute (Some False) None) [Abort True, Close None])
       = run quiet_host (execute (Some False) None) [Abort True, Close None]
   \<and> safeResolve aborted_before_start
         (run quiet_host (execute (Some False) None) [Abort True, Close None])
       = run quiet_host (execute (Some False) None) [Abort True, Close None]
   \<and> outcome (run quiet_host (execute (Some True) None) [Close (Some 0), Close (Some 1)])
       = [Resolved aborted_before_start]
   \<and> outcome (run quiet_host (execute None (Some TypeError)) [Close (Some 0)])
       = [Rejected TypeError]
   \<and> \<not> list_ex settles [Abort True, KillTimeout True]
   \<and> outcome (run quiet_host (execute (Some False) None) [Abort True, KillTimeout True]) = []"
proof -
  have st: "settled (run quiet_host (execute (Some False) None) [Abort True, Close None])"
    by (simp add: run_def step_def execute_def signal_abort_def onAbort_def on_close_def
        close_flush_def safeResolve_def build_result_cases or_default_def Let_def)
  have m: "SpawnError (Some (js ''ENOENT'')) []
        \<in> set ([Abort True, Close None] @ [SpawnError (Some (js ''ENOENT'')) [], Close (Some 1)])"
    by simp
  have n: "\<not> list_ex settles [Abort True, KillTimeout True]" by simp
  from settlement_at_most_once [where H = quiet_host and sig = "Some False" and sp = None
         and ts = "[Abort True, Close None] @ [SpawnError (Some (js ''ENOENT'')) [], Close (Some 1)]"
         and c = "Some (js ''ENOENT'')" and m = "[]"
         and s = "run quiet_host (execute (Some False) None) [Abort True, Close None]"
         and err = TypeError and v = aborted_before_start]
       settlement_at_most_once [where H = quiet_host and sig = "Some False" and sp = None
         and ts = "[Abort True, Close None]"
         and us = "[SpawnError (Some (js ''ENOENT'')) [], Close (Some 1)]"]
       settlement_at_most_once [where H = quiet_host and sig = None and sp = "Some TypeError"
         and ts = "[Close (Some 0)]" and e = TypeError]
       settlement_at_most_once [where H = quiet_host and sig = "Some False" and sp = None
         and ts = "[Abort True, KillTimeout True]"]
       settlement_at_most_once [where H = quiet_host and sig = "Some True" and sp = None
         and ts = "[Close (Some 0), Close (Some 1)]"]
  show ?thesis using st m n by simp
qed

text \<open>
  The claim as it was stated fails in two ways. After a cancellation request the
  promise has no outcome, and it still has none when the timer of two seconds has run
  (\<open>child.killed\<close> is true once SIGTERM was delivered, so the timer sends nothing). And
  a close itself may settle nothing: the child printed an agent message whose text is
  an object with a key \<open>toString\<close>, the signal aborted, the child closed, and the
  template literal of the close handler threw before \<open>safeResolve\<close>.
\<close>

theorem abort_alone_does_not_settle:
  "outcome (run quiet_host (execute (Some False) None) [Abort True]) = []
   \<and> \<not> settled (run quiet_host (execute (Some False) None) [Abort True])
   \<and> outcome (run quiet_host (execute (Some False) None) [Abort True, KillTimeout True]) = []
   \<and> sent (run quiet_host (execute (Some False) None) [Abort True, KillTimeout True]) = [SIGTERM]
   \<and> lastMessage (run object_host (execute (Some False) None)
                    [StdoutData (map of_nat (toString_line @ [10])), Abort True])
       = JObj [(js ''toString'', JNull)]
   \<and> fst (on_close object_host None
             (run object_host (execute (Some False) None)
                [StdoutData (map of_nat (toString_line @ [10])), Abort True]))
       = Some TypeError
   \<and> outcome (run object_host (execute (Some False) None)
                [StdoutData (map of_nat (toString_line @ [10])), Abort True, Close None]) = []"
proof -
  have a: "outcome (run quiet_host (execute (Some False) None) [Abort True]) = []
   \<and> \<not> settled (run quiet_host (execute (Some False) None) [Abort True])
   \<and> outcome (run quiet_host (execute (Some False) None) [Abort True, KillTimeout True]) = []
   \<and> sent (run quiet_host (execute (Some False) None) [Abort True, KillTimeout True]) = [SIGTERM]"
    by (simp add: run_def step_def execute_def signal_abort_def onAbort_def force_kill_def Let_def)
  define st where "st = run object_host (execute (Some False) None)
              [StdoutData (map of_nat (toString_line @ [10])), Abort True]"
  have dec: "Buffer_toString (map of_nat toString_line @ [10]) = toString_line @ [10]"
    by (simp add: toString_line_def js_def Buffer_toString_def utf8_lead_def utf8_idle_def)
  have ws: "trim toString_line \<noteq> []" "10 \<notin> set toString_line"
    by (simp_all add: toString_line_def js_def trim_def is_ws_def)
  have sp: "split 10 (toString_line @ [10]) = [toString_line, []]"
    using split_at_sep [OF ws(2), of "[]"] by simp
  have s: "st = \<lparr>events = [agent_message_event (JObj [(js ''toString'', JNull)])],
                lastMessage = JObj [(js ''toString'', JNull)], settled = False, outcome = [],
                spawned = True, buffer = [], stderr = [], signal = Some True,
                listening = False, killed = True, sent = [SIGTERM], timers = 1,
                updates = []\<rparr>"
    unfolding st_def using ws(1)
    by (simp add: run_def step_def execute_def on_stdout_data_def dec stdout_text_def sp pop_def
        handle_line_def catch_all_def data_try_def object_host_def push_event_def
        agent_message_event_shape [unfolded opt_get_def] agent_message_text_def opt_get_def
        agent_message_event_def emit_update_def signal_abort_def onAbort_def js_def Let_def)
  have f: "lastMessage st = JObj [(js ''toString'', JNull)]" "spawned st" "outcome st = []"
    by (simp_all add: s)
  have br: "build_result object_host None st = Inl TypeError"
    unfolding s by (simp add: build_result_cases or_default_def)
  have fl: "snd (close_flush object_host (st\<lparr>listening := False\<rparr>)) = st"
    unfolding s by (simp add: close_flush_def)
  have oc: "on_close object_host None st = (Some TypeError, st)"
    using on_close_thrown [of object_host None st TypeError] br fl by simp
  have "run object_host (execute (Some False) None)
          ([StdoutData (map of_nat (toString_line @ [10])), Abort True] @ [Close None])
        = run object_host st [Close None]"
    unfolding st_def by (rule run_append)
  also have "\<dots> = snd (on_close object_host None st)"
    using f(2) by (simp add: run_def step_def)
  finally have cl: "outcome (run object_host (execute (Some False) None)
          ([StdoutData (map of_nat (toString_line @ [10])), Abort True] @ [Close None])) = []"
    using oc f(3) by simp
  have th: "fst (on_close object_host None st) = Some TypeError" using oc by simp
  from a f(1) th cl show ?thesis unfolding st_def by simp
qed

section \<open>Line reassembly\<close>

lemma handle_line_buffer:
  "handle_line H l (s\<lparr>buffer := b\<rparr>) =
     (fst (handle_line H l s), (snd (handle_line H l s))\<lparr>buffer := b\<rparr>)"
  by (simp add: handle_line_def catch_all_def data_try_def push_event_def emit_update_def Let_def
        split: option.splits sum.splits prod.splits)

lemma handle_lines_buffer:
  "handle_lines H ls (s\<lparr>buffer := b\<rparr>) =
     (fst (handle_lines H ls s), (snd (handle_lines H ls s))\<lparr>buffer := b\<rparr>)"
proof (induction ls arbitrary: s)
  case Nil
  show ?case by simp
next
  case (Cons l ls)
  obtain e s' where h: "handle_line H l s = (e, s')" by (cases "handle_line H l s")
  show ?case
    using handle_line_buffer [where H = H and l = l and s = s and b = b] h
      Cons.IH [where s = s']
    by (cases e) simp_all
qed

lemma handle_lines_append:
  "handle_lines H (ks @ ls) s = handle_lines H ls (snd (handle_lines H ks s))"
proof (induction ks arbitrary: s)
  case Nil
  show ?case by simp
next
  case (Cons k ks)
  obtain s' where h: "handle_line H k s = (None, s')"
    using handle_line_no_throw [of H k s] by (cases "handle_line H k s") auto
  show ?case using h Cons.IH [of s'] by simp
qed

lemma stdout_text_buffer:
  "buffer (snd (stdout_text H chunk s)) = last (split 10 (buffer s @ chunk))"
  by (simp add: stdout_text_eq handle_lines_fields)

lemma stdout_text_append:
  "stdout_text H (a @ b) s = stdout_text H b (snd (stdout_text H a s))"
proof -
  let ?A = "split 10 (buffer s @ a)"
  let ?B = "split 10 (last ?A @ b)"
  let ?s1 = "snd (handle_lines H (butlast ?A) s)"
  have whole: "split 10 (buffer s @ a @ b) = butlast ?A @ ?B"
    using split_append [of 10 "buffer s @ a" b] by simp
  have bl: "butlast (butlast ?A @ ?B) = butlast ?A @ butlast ?B" and
       la: "last (butlast ?A @ ?B) = last ?B"
    by (simp_all add: butlast_append)
  have "stdout_text H (a @ b) s =
          handle_lines H (butlast ?A @ butlast ?B) (s\<lparr>buffer := last ?B\<rparr>)"
    unfolding stdout_text_eq using whole bl la by simp
  also have "\<dots> = handle_lines H (butlast ?B) (?s1\<lparr>buffer := last ?B\<rparr>)"
    by (simp add: handle_lines_append handle_lines_buffer)
  also have "\<dots> = stdout_text H b (snd (stdout_text H a s))"
    unfolding stdout_text_eq by (simp add: handle_lines_buffer handle_lines_fields)
  finally show ?thesis .
qed

lemma stdout_text_empty: "10 \<notin> set (buffer s) \<Longrightarrow> stdout_text H [] s = (None, s)"
  by (simp add: stdout_text_eq split_no_sep)

lemma run_stdout:
  "spawned s \<Longrightarrow> 10 \<notin> set (buffer s) \<Longrightarrow>
   run H s (map StdoutData cs) = snd (stdout_text H (concat (map Buffer_toString cs)) s)"
proof (induction cs arbitrary: s)
  case Nil
  then show ?case by (simp add: run_def stdout_text_empty)
next
  case (Cons c cs)
  let ?s1 = "snd (stdout_text H (Buffer_toString c) s)"
  have sp: "spawned ?s1"
    using stdout_fields [of H c s] Cons.prems(1) by (simp add: on_stdout_data_def)
  have nb: "10 \<notin> set (buffer ?s1)"
    by (simp add: stdout_text_buffer last_split_no_sep)
  have "run H s (map StdoutData (c # cs)) = run H ?s1 (map StdoutData cs)"
    using Cons.prems(1) by (simp add: run_def step_def on_stdout_data_def)
  also have "\<dots> = snd (stdout_text H (concat (map Buffer_toString cs)) ?s1)"
    by (rule Cons.IH [OF sp nb])
  finally show ?case by (simp add: stdout_text_append)
qed

lemma map_filter_snoc:
  "List.map_filter f (xs @ [x]) = List.map_filter f xs @ (case f x of None \<Rightarrow> [] | Some y \<Rightarrow> [y])"
  by (cases "f x") (simp_all add: List.map_filter_def)

lemma utf8_decode_idle: "needed st = 0 \<Longrightarrow> utf8_decode st bs = utf8_decode utf8_idle bs"
  by (cases bs) (simp_all add: utf8_idle_def)

lemma utf8_decode_append:
  "\<not> utf8_pending st xs \<Longrightarrow>
   utf8_decode st (xs @ ys) = utf8_decode st xs @ utf8_decode utf8_idle ys"
proof (induction xs arbitrary: st)
  case Nil
  then show ?case using utf8_decode_idle [of st ys] by simp
next
  case (Cons b bs)
  then show ?case
    by (auto simp: Let_def split: prod.splits if_splits)
qed

lemma toString_concat:
  "\<forall>c \<in> set cs. \<not> cut_inside_character c \<Longrightarrow>
   Buffer_toString (concat cs) = concat (map Buffer_toString cs)"
  by (induction cs)
     (simp_all add: Buffer_toString_def cut_inside_character_def utf8_decode_append utf8_idle_def)

text \<open>
  Claim C3, as the code has it. As long as no chunk ends inside a multi-byte character,
  the way the stdout stream is cut into chunks does not matter: two sequences of chunks
  with the same bytes lead to the same state after the close, wherever the cuts fall
  inside a line, and whether or not the stream ends with a newline. Before the close,
  the lines handed to the classifier are the pieces of the whole decoded text between
  newlines, in order, and the piece after the last newline is what the buffer holds.
  The close handler then takes that leftover as one final line: the events after the
  close are the events of all pieces of the decoded text, the last one included.
\<close>

theorem lines_stable_under_chunking:
  assumes "spawned s" and "10 \<notin> set (buffer s)"
    and "\<forall>c \<in> set cs. \<not> cut_inside_character c"
    and "\<forall>d \<in> set ds. \<not> cut_inside_character d"
    and "concat cs = concat ds"
  shows "run H s (map StdoutData cs @ [Close code]) = run H s (map StdoutData ds @ [Close code])
       \<and> run H s (map StdoutData cs) =
           snd (handle_lines H (butlast (split 10 (buffer s @ Buffer_toString (concat cs))))
                  (s\<lparr>buffer := last (split 10 (buffer s @ Buffer_toString (concat cs)))\<rparr>))
       \<and> buffer (run H s (map StdoutData cs))
           = last (split 10 (buffer s @ Buffer_toString (concat cs)))
       \<and> events (run H s (map StdoutData cs))
           = events s @ List.map_filter (line_event H)
                          (butlast (split 10 (buffer s @ Buffer_toString (concat cs))))
       \<and> events (run H s (map StdoutData cs @ [Close code]))
           = events (run H s (map StdoutData cs))
             @ (case line_event H (buffer (run H s (map StdoutData cs))) of
                  None \<Rightarrow> [] | Some ev \<Rightarrow> [ev])
       \<and> events (run H s (map StdoutData cs @ [Close code]))
           = events s @ List.map_filter (line_event H)
                          (split 10 (buffer s @ Buffer_toString (concat cs)))"
proof -
  let ?T = "split 10 (buffer s @ Buffer_toString (concat cs))"
  let ?s1 = "run H s (map StdoutData cs)"
  have r1: "?s1 = snd (stdout_text H (Buffer_toString (concat cs)) s)"
    using run_stdout [OF assms(1,2)] toString_concat [OF assms(3)] by simp
  have r2: "run H s (map StdoutData ds) = snd (stdout_text H (Buffer_toString (concat ds)) s)"
    using run_stdout [OF assms(1,2)] toString_concat [OF assms(4)] by simp
  have same: "run H s (map StdoutData cs @ [Close code])
                = run H s (map StdoutData ds @ [Close code])"
    using r1 r2 assms(5) by (simp add: run_append)
  have st: "?s1 = snd (handle_lines H (butlast ?T) (s\<lparr>buffer := last ?T\<rparr>))"
    using r1 by (simp add: stdout_text_eq)
  have bf: "buffer ?s1 = last ?T"
    unfolding st by (simp add: handle_lines_fields)
  have sp: "spawned ?s1"
    unfolding st using assms(1) by (simp add: handle_lines_fields)
  have ev: "events ?s1 = events s @ List.map_filter (line_event H) (butlast ?T)"
    unfolding st by (simp add: handle_lines_events)
  have "run H s (map StdoutData cs @ [Close code]) = snd (on_close H code ?s1)"
    using sp by (simp add: run_append run_def step_def)
  then have cl: "events (run H s (map StdoutData cs @ [Close code]))
          = events ?s1 @ (case line_event H (buffer ?s1) of None \<Rightarrow> [] | Some ev \<Rightarrow> [ev])"
    by (simp add: on_close_events close_flush_events)
  have "List.map_filter (line_event H) ?T
          = List.map_filter (line_event H) (butlast ?T)
            @ (case line_event H (last ?T) of None \<Rightarrow> [] | Some ev \<Rightarrow> [ev])"
    using map_filter_snoc [of "line_event H" "butlast ?T" "last ?T"] by simp
  then have "List.map_filter (line_event H) ?T
          = List.map_filter (line_event H) (butlast ?T)
            @ (case line_event H (last ?T) of None \<Rightarrow> [] | Some ev \<Rightarrow> [ev])"
    by simp
  with cl ev bf have all: "events (run H s (map StdoutData cs @ [Close code]))
          = events s @ List.map_filter (line_event H) ?T"
    by simp
  from same st bf ev cl all show ?thesis by blast
qed

text \<open>
  An instance: the stream \<open>"a"\<close>, newline, \<open>"\<close>, e with an acute accent, \<open>"\<close> in three
  chunks, cut inside the first line and between two characters of the second, and in
  one chunk. The stream does not end with a newline, and the second line becomes an
  event at the close.
\<close>

theorem lines_stable_under_chunking_witness:
  "spawned (execute None None) \<and> 10 \<notin> set (buffer (execute None None))
   \<and> \<not> cut_inside_character [0x22, 0x61]
   \<and> \<not> cut_inside_character [0x22, 0x0A, 0x22, 0xC3, 0xA9]
   \<and> \<not> cut_inside_character [0x22]
   \<and> \<not> cut_inside_character [0x22, 0x61, 0x22, 0x0A, 0x22, 0xC3, 0xA9, 0x22]
   \<and> concat [[0x22, 0x61], [0x22, 0x0A, 0x22, 0xC3, 0xA9], [0x22 :: 8 word]]
        = concat [[0x22, 0x61, 0x22, 0x0A, 0x22, 0xC3, 0xA9, 0x22]]
   \<and> run literal_host (execute None None)
         (map StdoutData [[0x22, 0x61], [0x22, 0x0A, 0x22, 0xC3, 0xA9], [0x22]] @ [Close (Some 0)])
       = run literal_host (execute None None)
         (map StdoutData [[0x22, 0x61, 0x22, 0x0A, 0x22, 0xC3, 0xA9, 0x22]] @ [Close (Some 0)])
   \<and> buffer (run literal_host (execute None None)
         (map StdoutData [[0x22, 0x61], [0x22, 0x0A, 0x22, 0xC3, 0xA9], [0x22]]))
       = [34, 233, 34]
   \<and> events (run literal_host (execute None None)
         (map StdoutData [[0x22, 0x61], [0x22, 0x0A, 0x22, 0xC3, 0xA9], [0x22]]))
       = [JStr [97]]
   \<and> events (run literal_host (execute None None)
         (map StdoutData [[0x22, 0x61], [0x22, 0x0A, 0x22, 0xC3, 0xA9], [0x22]] @ [Close (Some 0)]))
       = [JStr [97], JStr [233]]"
proof -
  have a: "spawned (execute None None)" "10 \<notin> set (buffer (execute None None))"
    by (simp_all add: execute_def)
  have n: "\<not> cut_inside_character [0x22, 0x61]"
          "\<not> cut_inside_character [0x22, 0x0A, 0x22, 0xC3, 0xA9]"
          "\<not> cut_inside_character [0x22]"
          "\<not> cut_inside_character [0x22, 0x61, 0x22, 0x0A, 0x22, 0xC3, 0xA9, 0x22]"
    by (simp_all add: cut_inside_character_def utf8_lead_def utf8_idle_def)
  have b: "\<forall>c \<in> set [[0x22, 0x61], [0x22, 0x0A, 0x22, 0xC3, 0xA9], [0x22]].
             \<not> cut_inside_character c"
    using n by simp
  have c: "\<forall>d \<in> set [[0x22, 0x61, 0x22, 0x0A, 0x22, 0xC3, 0xA9, 0x22]].
             \<not> cut_inside_character d"
    using n by simp
  have d: "concat [[0x22, 0x61], [0x22, 0x0A, 0x22, 0xC3, 0xA9], [0x22 :: 8 word]]
        = concat [[0x22, 0x61, 0x22, 0x0A, 0x22, 0xC3, 0xA9, 0x22]]" by simp
  have e: "buffer (execute None None) = []" "events (execute None None) = []"
    by (simp_all add: execute_def)
  have f: "Buffer_toString [0x22, 0x61, 0x22, 0x0A, 0x22, 0xC3, 0xA9, 0x22]
             = [34, 97, 34, 10, 34, 233, 34]"
    by (simp add: Buffer_toString_def utf8_lead_def utf8_idle_def utf16_def)
  have g: "line_event literal_host [34, 97, 34] = Some (JStr [97])"
          "line_event literal_host [34, 233, 34] = Some (JStr [233])"
    by (simp_all add: line_event_def literal_host_def parse_string_literal_def trim_def is_ws_def)
  note th = lines_stable_under_chunking [OF a b c d, of literal_host "Some 0"]
  have same: "run literal_host (execute None None)
         (map StdoutData [[0x22, 0x61], [0x22, 0x0A, 0x22, 0xC3, 0xA9], [0x22]] @ [Close (Some 0)])
       = run literal_host (execute None None)
         (map StdoutData [[0x22, 0x61, 0x22, 0x0A, 0x22, 0xC3, 0xA9, 0x22]] @ [Close (Some 0)])"
    by (rule th [THEN conjunct1])
  have bf: "buffer (run literal_host (execute None None)
         (map StdoutData [[0x22, 0x61], [0x22, 0x0A, 0x22, 0xC3, 0xA9], [0x22]]))
       = [34, 233, 34]"
    using th [THEN conjunct2, THEN conjunct2, THEN conjunct1] by (simp add: e f)
  have ev1: "events (run literal_host (execute None None)
         (map StdoutData [[0x22, 0x61], [0x22, 0x0A, 0x22, 0xC3, 0xA9], [0x22]]))
       = [JStr [97]]"
    using th [THEN conjunct2, THEN conjunct2, THEN conjunct2, THEN conjunct1]
    by (simp add: e f g List.map_filter_simps)
  have ev2: "events (run literal_host (execute None None)
         (map StdoutData [[0x22, 0x61], [0x22, 0x0A, 0x22, 0xC3, 0xA9], [0x22]] @ [Close (Some 0)]))
       = [JStr [97], JStr [233]]"
    using th [THEN conjunct2, THEN conjunct2, THEN conjunct2, THEN conjunct2, THEN conjunct2]
    by (simp add: e f g List.map_filter_simps)
  from a n d same bf ev1 ev2 show ?thesis by (intro conjI)
qed

text \<open>
  The claim as it was stated fails when a chunk ends inside a multi-byte character: the
  line \<open>"\<close>, e with an acute accent (the bytes C3 A9), \<open>"\<close> gives the string of that
  one character when it arrives whole, and a string of two replacement characters when
  the chunk ends between the two bytes.
\<close>

theorem split_character_changes_line:
  "concat [[0x22, 0xC3, 0xA9, 0x22, 0x0A]] = concat [[0x22, 0xC3], [0xA9, 0x22, 0x0A :: 8 word]]
   \<and> events (run literal_host (execute None None)
               (map StdoutData [[0x22, 0xC3, 0xA9, 0x22, 0x0A]] @ [Close (Some 0)]))
       = [JStr [233]]
   \<and> events (run literal_host (execute None None)
               (map StdoutData [[0x22, 0xC3], [0xA9, 0x22, 0x0A]] @ [Close (Some 0)]))
       = [JStr [65533, 65533]]"
  by (simp add: run_def step_def execute_def on_stdout_data_def stdout_text_def pop_def
      Buffer_toString_def utf8_lead_def utf8_idle_def utf16_def handle_line_def catch_all_def
      data_try_def push_event_def emit_update_def literal_host_def parse_string_literal_def
      on_close_def close_flush_def safeResolve_def build_result_cases or_default_def
      trim_def is_ws_def Let_def)

section \<open>The credential file\<close>

lemma perform_calls: "\<exists>rest. calls (snd (perform P c w)) = calls w @ rest"
  by (simp add: perform_def Let_def split: fs_call.splits option.splits)

lemma writeJsonFile_calls: "\<exists>rest. calls (snd (writeJsonFile P path d w)) = calls w @ rest"
proof -
  obtain e1 w1 where p1: "perform P (Mkdir (dirname path) 448) w = (e1, w1)"
    by (cases "perform P (Mkdir (dirname path) 448) w")
  obtain e2 w2 where p2:
    "perform P (WriteFile (tmpPath P path) (stringify P d @ [10]) 384) w1 = (e2, w2)"
    by (cases "perform P (WriteFile (tmpPath P path) (stringify P d @ [10]) 384) w1")
  obtain r1 where c1: "calls w1 = calls w @ r1"
    using perform_calls [of P "Mkdir (dirname path) 448" w] p1 by auto
  obtain r2 where c2: "calls w2 = calls w1 @ r2"
    using perform_calls [of P "WriteFile (tmpPath P path) (stringify P d @ [10]) 384" w1] p2
    by auto
  obtain r3 where c3: "calls (snd (perform P (Rename (tmpPath P path) path) w2)) = calls w2 @ r3"
    using perform_calls [of P "Rename (tmpPath P path) path" w2] by auto
  show ?thesis
    using p1 p2 c1 c2 c3 by (cases e1; cases e2) (simp_all add: writeJsonFile_def)
qed

lemma refresh_and_store_calls:
  "\<exists>rest. calls (snd (refresh_and_store P options doc tokens r idTok w)) =
     calls w @ Fetch (refresh_request
        (case tokenUrl options of None \<Rightarrow> CODEX_TOKEN_URL | Some u \<Rightarrow> u)
        (case oauthClientId options of None \<Rightarrow> CODEX_CLIENT_ID | Some c \<Rightarrow> c) r) # rest"
proof -
  let ?u = "case tokenUrl options of None \<Rightarrow> CODEX_TOKEN_URL | Some u \<Rightarrow> u"
  let ?c = "case oauthClientId options of None \<Rightarrow> CODEX_CLIENT_ID | Some c \<Rightarrow> c"
  let ?req = "refresh_request ?u ?c r"
  let ?w1 = "w\<lparr>calls := calls w @ [Fetch ?req]\<rparr>"
  have wr: "\<exists>rest. calls (snd (writeJsonFile P path d ?w1)) = calls w @ Fetch ?req # rest"
    for path d
    using writeJsonFile_calls [of P path d ?w1] by simp
  show ?thesis
  proof (cases "refreshTokens P ?u ?c r")
    case (Inl e)
    then show ?thesis by (simp add: refresh_and_store_def Let_def)
  next
    case (Inr refreshed)
    show ?thesis
    proof (cases "case writeBack options of None \<Rightarrow> True | Some b \<Rightarrow> b")
      case False
      with Inr show ?thesis by (simp add: refresh_and_store_def Let_def)
    next
      case True
      let ?path = "case authJsonPath options of None \<Rightarrow> default_path P | Some p \<Rightarrow> p"
      let ?doc = "JObj (merge_file P (merge_tokens (access_token refreshed)
                    (case refresh_token refreshed of None \<Rightarrow> r | Some x \<Rightarrow> x)
                    (case id_token refreshed of None \<Rightarrow> idTok | Some i \<Rightarrow> Some i) tokens) doc)"
      obtain e w2 where wj: "writeJsonFile P ?path ?doc ?w1 = (e, w2)"
        by (cases "writeJsonFile P ?path ?doc ?w1")
      obtain rest where "calls w2 = calls w @ Fetch ?req # rest"
        using wr [of ?path ?doc] wj by auto
      with Inr True wj show ?thesis
        by (cases e) (simp_all add: refresh_and_store_def Let_def)
    qed
  qed
qed

lemma getCodexCliAuth_found:
  assumes "readJsonFile P w (case authJsonPath options of None \<Rightarrow> default_path P | Some p \<Rightarrow> p)
             = Inr (JObj doc)"
    and "map_of doc (js ''tokens'') = Some (JObj tokens)"
    and "getOptionalString tokens (js ''access_token'') = Some tok"
  shows "getCodexCliAuth P options w =
     (case (if isExpiringSoon (extractJwtExpMs P tok) (now P)
                 (case refreshLeewaySeconds options of
                      None \<Rightarrow> DEFAULT_REFRESH_LEEWAY_SECONDS | Some l \<Rightarrow> l)
            then getOptionalString tokens (js ''refresh_token'') else None) of
        Some r \<Rightarrow> refresh_and_store P options doc tokens r
                    (getOptionalString tokens (js ''id_token'')) w
      | None \<Rightarrow> (Inr (Some \<lparr>accessToken = tok,
                     refreshToken = getOptionalString tokens (js ''refresh_token''),
                     idToken = getOptionalString tokens (js ''id_token''),
                     expiresAtMs = extractJwtExpMs P tok\<rparr>), w))"
  using assms by (simp add: getCodexCliAuth_def Let_def)

lemma isExpiringSoon_iff:
  "isExpiringSoon ex n l \<longleftrightarrow> (\<exists>e. ex = Some e \<and> of_int e - max 0 l * 1000 \<le> of_int n)"
  by (cases ex) (auto simp: isExpiringSoon_def)

subsection \<open>The example platform\<close>

lemma demo_read:
  "readJsonFile (demo_platform payload answer) demo_world
     (case authJsonPath (demo_options l) of
        None \<Rightarrow> default_path (demo_platform payload answer) | Some p \<Rightarrow> p)
      = Inr (JObj demo_doc)"
  by (simp add: readJsonFile_def demo_platform_def demo_world_def demo_options_def)

lemma demo_tokens_found: "map_of demo_doc (js ''tokens'') = Some (JObj demo_tokens)"
  by (simp add: demo_doc_def js_def)

lemma demo_access: "getOptionalString demo_tokens (js ''access_token'') = Some (js ''h.p.s'')"
  by (simp add: getOptionalString_def demo_tokens_def js_def trim_def is_ws_def)

lemma demo_refresh: "getOptionalString demo_tokens (js ''refresh_token'') = Some (js ''r1'')"
  by (simp add: getOptionalString_def demo_tokens_def js_def trim_def is_ws_def)

lemma demo_id: "getOptionalString demo_tokens (js ''id_token'') = None"
  by (simp add: getOptionalString_def demo_tokens_def js_def trim_def is_ws_def)

lemma demo_payload_text:
  "base64UrlDecodeToUtf8 (demo_platform payload answer) (js ''p'') = js ''PAYLOAD''"
  by (simp add: base64UrlDecodeToUtf8_def demo_platform_def Buffer_toString_def
       utf8_lead_def utf8_idle_def js_def Let_def)

lemma demo_split:
  "split 46 (js ''h.p.s'') = [js ''h'', js ''p'', js ''s'']"
  "split 46 (js ''h2.p.s'') = [js ''h2'', js ''p'', js ''s'']"
  by (simp_all add: js_def)

lemma demo_expiry:
  "extractJwtExpMs (demo_platform payload answer) (js ''h.p.s'') =
     (case payload of
        Some (JObj kvs) \<Rightarrow>
          (case map_of kvs (js ''exp'') of
             Some (JNum e) \<Rightarrow> if e > 0 then Some \<lfloor>e * 1000\<rfloor> else None
           | _ \<Rightarrow> None)
      | _ \<Rightarrow> None)"
  "extractJwtExpMs (demo_platform payload answer) (js ''h2.p.s'') =
     (case payload of
        Some (JObj kvs) \<Rightarrow>
          (case map_of kvs (js ''exp'') of
             Some (JNum e) \<Rightarrow> if e > 0 then Some \<lfloor>e * 1000\<rfloor> else None
           | _ \<Rightarrow> None)
      | _ \<Rightarrow> None)"
proof -
  have p: "parseJSON (demo_platform payload answer) (js ''PAYLOAD'') = payload"
    by (simp add: demo_platform_def js_def)
  have n: "js ''p'' \<noteq> []" by (simp add: js_def)
  show "extractJwtExpMs (demo_platform payload answer) (js ''h.p.s'') =
     (case payload of
        Some (JObj kvs) \<Rightarrow>
          (case map_of kvs (js ''exp'') of
             Some (JNum e) \<Rightarrow> if e > 0 then Some \<lfloor>e * 1000\<rfloor> else None
           | _ \<Rightarrow> None)
      | _ \<Rightarrow> None)"
    unfolding extractJwtExpMs_def Let_def demo_split
    using p n by (simp add: demo_payload_text split: option.splits json.splits)
  show "extractJwtExpMs (demo_platform payload answer) (js ''h2.p.s'') =
     (case payload of
        Some (JObj kvs) \<Rightarrow>
          (case map_of kvs (js ''exp'') of
             Some (JNum e) \<Rightarrow> if e > 0 then Some \<lfloor>e * 1000\<rfloor> else None
           | _ \<Rightarrow> None)
      | _ \<Rightarrow> None)"
    unfolding extractJwtExpMs_def Let_def demo_split
    using p n by (simp add: demo_payload_text split: option.splits json.splits)
qed

lemma demo_now: "now (demo_platform payload answer) = 1700000000000"
  by (simp add: demo_platform_def)

lemma demo_request:
  "refresh_request (case tokenUrl (demo_options l) of None \<Rightarrow> CODEX_TOKEN_URL | Some u \<Rightarrow> u)
     (case oauthClientId (demo_options l) of None \<Rightarrow> CODEX_CLIENT_ID | Some c \<Rightarrow> c) r
   = refresh_request CODEX_TOKEN_URL CODEX_CLIENT_ID r"
  by (simp add: demo_options_def)

section \<open>Unknown expiry\<close>

lemma extractJwtExpMs_unknown:
  "length (split 46 jwt) \<noteq> 3 \<Longrightarrow> extractJwtExpMs P jwt = None"
  "parseJSON P (base64UrlDecodeToUtf8 P (split 46 jwt ! 1)) = None \<Longrightarrow>
     extractJwtExpMs P jwt = None"
  by (simp_all add: extractJwtExpMs_def Let_def)

text \<open>
  Claim C2, as the code has it, for a credential file that can be read and holds an
  access token. When the expiry of the access token is unknown (the token has not three
  parts, or its payload does not parse, or it has no usable \<open>exp\<close>), the refreshing
  \<open>getCodexCliAuth\<close> performs no refresh: it returns the stored tokens with no expiry
  and makes no network or file-system call; and the read-only \<open>getCodexCliAuth\<close>
  returns the same access token, with no expiry. The read-only variant returns no
  credential exactly when the expiry is known and not after the current time; when the
  expiry is known and after the current time it returns the access token with that
  expiry.
\<close>

theorem unknown_expiry_is_accepted_by_both:
  assumes "readJsonFile P w (case authJsonPath options of None \<Rightarrow> default_path P | Some p \<Rightarrow> p)
             = Inr (JObj doc)"
    and "map_of doc (js ''tokens'') = Some (JObj tokens)"
    and "getOptionalString tokens (js ''access_token'') = Some tok"
  shows "(length (split 46 tok) \<noteq> 3
          \<or> parseJSON P (base64UrlDecodeToUtf8 P (split 46 tok ! 1)) = None
          \<or> extractJwtExpMs P tok = None \<longrightarrow>
            getCodexCliAuth P options w =
              (Inr (Some \<lparr>accessToken = tok,
                     refreshToken = getOptionalString tokens (js ''refresh_token''),
                     idToken = getOptionalString tokens (js ''id_token''),
                     expiresAtMs = None\<rparr>), w)
            \<and> getCodexCliAuth_readonly P (authJsonPath options) w =
                Some \<lparr>ro_accessToken = tok, ro_expiresAtMs = None\<rparr>)
         \<and> (getCodexCliAuth_readonly P (authJsonPath options) w = None
              \<longleftrightarrow> (\<exists>e. extractJwtExpMs P tok = Some e \<and> e \<le> now P))
         \<and> (\<forall>e. extractJwtExpMs P tok = Some e \<and> now P < e \<longrightarrow>
                getCodexCliAuth_readonly P (authJsonPath options) w =
                  Some \<lparr>ro_accessToken = tok, ro_expiresAtMs = Some e\<rparr>)"
proof (intro conjI impI allI)
  assume "length (split 46 tok) \<noteq> 3
          \<or> parseJSON P (base64UrlDecodeToUtf8 P (split 46 tok ! 1)) = None
          \<or> extractJwtExpMs P tok = None"
  then have un: "extractJwtExpMs P tok = None"
    using extractJwtExpMs_unknown [where jwt = tok and P = P] by auto
  show "getCodexCliAuth P options w =
              (Inr (Some \<lparr>accessToken = tok,
                     refreshToken = getOptionalString tokens (js ''refresh_token''),
                     idToken = getOptionalString tokens (js ''id_token''),
                     expiresAtMs = None\<rparr>), w)"
    using un by (simp add: getCodexCliAuth_found [OF assms(1-3)] isExpiringSoon_def)
  show "getCodexCliAuth_readonly P (authJsonPath options) w =
                Some \<lparr>ro_accessToken = tok, ro_expiresAtMs = None\<rparr>"
    using assms un by (simp add: getCodexCliAuth_readonly_def Let_def)
next
  show "getCodexCliAuth_readonly P (authJsonPath options) w = None
              \<longleftrightarrow> (\<exists>e. extractJwtExpMs P tok = Some e \<and> e \<le> now P)"
    using assms
    by (cases "extractJwtExpMs P tok") (simp_all add: getCodexCliAuth_readonly_def Let_def)
next
  fix e
  assume "extractJwtExpMs P tok = Some e \<and> now P < e"
  then show "getCodexCliAuth_readonly P (authJsonPath options) w =
                  Some \<lparr>ro_accessToken = tok, ro_expiresAtMs = Some e\<rparr>"
    using assms by (simp add: getCodexCliAuth_readonly_def Let_def)
qed

text \<open>
  Instances: the payload of the stored token is not JSON; the token expired long before
  the current time; the token expires after the current time.
\<close>

theorem unknown_expiry_is_accepted_by_both_witness:
  "readJsonFile (demo_platform None (http 200 (js ''GOOD''))) demo_world
     (case authJsonPath (demo_options None) of
        None \<Rightarrow> default_path (demo_platform None (http 200 (js ''GOOD''))) | Some p \<Rightarrow> p)
      = Inr (JObj demo_doc)
   \<and> map_of demo_doc (js ''tokens'') = Some (JObj demo_tokens)
   \<and> getOptionalString demo_tokens (js ''access_token'') = Some (js ''h.p.s'')
   \<and> extractJwtExpMs (demo_platform None (http 200 (js ''GOOD''))) (js ''h.p.s'') = None
   \<and> getCodexCliAuth (demo_platform None (http 200 (js ''GOOD''))) (demo_options None) demo_world =
           (Inr (Some \<lparr>accessToken = js ''h.p.s'',
                  refreshToken = Some (js ''r1''),
                  idToken = None,
                  expiresAtMs = None\<rparr>), demo_world)
   \<and> getCodexCliAuth_readonly (demo_platform None (http 200 (js ''GOOD'')))
         (authJsonPath (demo_options None)) demo_world =
             Some \<lparr>ro_accessToken = js ''h.p.s'', ro_expiresAtMs = None\<rparr>
   \<and> extractJwtExpMs (demo_platform (exp_claim 1) (http 200 (js ''GOOD''))) (js ''h.p.s'')
       = Some 1000
   \<and> 1000 \<le> now (demo_platform (exp_claim 1) (http 200 (js ''GOOD'')))
   \<and> getCodexCliAuth_readonly (demo_platform (exp_claim 1) (http 200 (js ''GOOD'')))
         (authJsonPath (demo_options None)) demo_world = None
   \<and> extractJwtExpMs (demo_platform (exp_claim 1800000000) (http 200 (js ''GOOD''))) (js ''h.p.s'')
       = Some 1800000000000
   \<and> now (demo_platform (exp_claim 1800000000) (http 200 (js ''GOOD''))) < 1800000000000
   \<and> getCodexCliAuth_readonly (demo_platform (exp_claim 1800000000) (http 200 (js ''GOOD'')))
         (authJsonPath (demo_options None)) demo_world
       = Some \<lparr>ro_accessToken = js ''h.p.s'', ro_expiresAtMs = Some 1800000000000\<rparr>"
proof -
  let ?P = "demo_platform None (http 200 (js ''GOOD''))"
  let ?Q = "demo_platform (exp_claim 1) (http 200 (js ''GOOD''))"
  let ?R = "demo_platform (exp_claim 1800000000) (http 200 (js ''GOOD''))"
  have e: "extractJwtExpMs ?P (js ''h.p.s'') = None"
    by (simp add: demo_expiry)
  have q: "extractJwtExpMs ?Q (js ''h.p.s'') = Some 1000"
    by (simp add: demo_expiry exp_claim_def)
  have r: "extractJwtExpMs ?R (js ''h.p.s'') = Some 1800000000000"
    by (simp add: demo_expiry exp_claim_def)
  from unknown_expiry_is_accepted_by_both
         [OF demo_read [of "None" "http 200 (js ''GOOD'')" None] demo_tokens_found
            demo_access]
       unknown_expiry_is_accepted_by_both
         [OF demo_read [of "exp_claim 1" "http 200 (js ''GOOD'')" None] demo_tokens_found
            demo_access]
       unknown_expiry_is_accepted_by_both
         [OF demo_read [of "exp_claim 1800000000" "http 200 (js ''GOOD'')" None] demo_tokens_found
            demo_access]
  show ?thesis
    using demo_read [of None "http 200 (js ''GOOD'')" None] demo_tokens_found demo_access
    by (simp add: e q r demo_now demo_refresh demo_id)
qed

text \<open>
  The claim as it was stated fails in its second half: for a token of unknown expiry
  the read-only \<open>getCodexCliAuth\<close> returns a credential.
\<close>

theorem readonly_returns_token_of_unknown_expiry:
  "extractJwtExpMs (demo_platform None (http 200 (js ''GOOD''))) (js ''h.p.s'') = None
   \<and> getCodexCliAuth_readonly (demo_platform None (http 200 (js ''GOOD''))) None demo_world
       = Some \<lparr>ro_accessToken = js ''h.p.s'', ro_expiresAtMs = None\<rparr>
   \<and> getCodexCliAuth_readonly (demo_platform None (http 200 (js ''GOOD''))) None demo_world
       \<noteq> None"
proof -
  have e: "extractJwtExpMs (demo_platform None (http 200 (js ''GOOD''))) (js ''h.p.s'') = None"
    by (simp add: demo_expiry)
  have "getCodexCliAuth_readonly (demo_platform None (http 200 (js ''GOOD''))) None demo_world
       = Some \<lparr>ro_accessToken = js ''h.p.s'', ro_expiresAtMs = None\<rparr>"
    using demo_read [of None "http 200 (js ''GOOD'')" None] demo_tokens_found demo_access e
    by (simp add: getCodexCliAuth_readonly_def demo_options_def Let_def)
  with e show ?thesis by simp
qed

section \<open>When a refresh is made\<close>

text \<open>
  Claim C4, as the code has it. With a readable credential file that holds an access
  token, \<open>getCodexCliAuth\<close> makes a network or file-system call exactly when the expiry
  is known and the expiry minus the leeway, a negative leeway counting as 0, is at most
  the current time, and a refresh token is stored; the first call is then the token
  request. The leeway is 120 seconds when the option is absent. In every other case it
  returns the stored credential and leaves the world as it was. With a leeway of 120
  seconds a refresh is due for an expiry 10 seconds from now, and not for one 1000
  seconds from now.
\<close>

theorem refresh_trigger:
  assumes "readJsonFile P w (case authJsonPath options of None \<Rightarrow> default_path P | Some p \<Rightarrow> p)
             = Inr (JObj doc)"
    and "map_of doc (js ''tokens'') = Some (JObj tokens)"
    and "getOptionalString tokens (js ''access_token'') = Some tok"
    and "leeway = (case refreshLeewaySeconds options of None \<Rightarrow> 120 | Some l \<Rightarrow> l)"
    and "due \<longleftrightarrow> (\<exists>e. extractJwtExpMs P tok = Some e
                     \<and> of_int e - max 0 leeway * 1000 \<le> of_int (now P))"
    and "req = (\<lambda>r. refresh_request
                  (case tokenUrl options of None \<Rightarrow> CODEX_TOKEN_URL | Some u \<Rightarrow> u)
                  (case oauthClientId options of None \<Rightarrow> CODEX_CLIENT_ID | Some c \<Rightarrow> c) r)"
  shows "(calls (snd (getCodexCliAuth P options w)) \<noteq> calls w
            \<longleftrightarrow> due \<and> getOptionalString tokens (js ''refresh_token'') \<noteq> None)
       \<and> (due \<and> getOptionalString tokens (js ''refresh_token'') = Some r \<longrightarrow>
            (\<exists>rest. calls (snd (getCodexCliAuth P options w)) = calls w @ Fetch (req r) # rest))
       \<and> (\<not> (due \<and> getOptionalString tokens (js ''refresh_token'') \<noteq> None) \<longrightarrow>
            getCodexCliAuth P options w =
              (Inr (Some \<lparr>accessToken = tok,
                     refreshToken = getOptionalString tokens (js ''refresh_token''),
                     idToken = getOptionalString tokens (js ''id_token''),
                     expiresAtMs = extractJwtExpMs P tok\<rparr>), w))
       \<and> (leeway = 120 \<and> extractJwtExpMs P tok = Some (now P + 10 * 1000) \<longrightarrow> due)
       \<and> (leeway = 120 \<and> extractJwtExpMs P tok = Some (now P + 1000 * 1000) \<longrightarrow> \<not> due)"
proof -
  have near: "leeway = 120 \<and> extractJwtExpMs P tok = Some (now P + 10 * 1000) \<longrightarrow> due"
    using assms(5) by simp
  have far: "leeway = 120 \<and> extractJwtExpMs P tok = Some (now P + 1000 * 1000) \<longrightarrow> \<not> due"
    using assms(5) by simp
  have soon: "isExpiringSoon (extractJwtExpMs P tok) (now P)
                 (case refreshLeewaySeconds options of
                      None \<Rightarrow> DEFAULT_REFRESH_LEEWAY_SECONDS | Some l \<Rightarrow> l) = due"
    using assms(4,5)
    by (simp add: isExpiringSoon_iff DEFAULT_REFRESH_LEEWAY_SECONDS_def split: option.splits)
  show ?thesis
  proof (cases "due \<and> getOptionalString tokens (js ''refresh_token'') \<noteq> None")
    case False
    then show ?thesis
      unfolding getCodexCliAuth_found [OF assms(1-3)] soon using near far by auto
  next
    case True
    then obtain r' where r': "getOptionalString tokens (js ''refresh_token'') = Some r'" by auto
    obtain rest where
      "calls (snd (refresh_and_store P options doc tokens r'
                     (getOptionalString tokens (js ''id_token'')) w))
         = calls w @ Fetch (req r') # rest"
      using refresh_and_store_calls [of P options doc tokens r'] assms(6) by auto
    with True r' show ?thesis
      unfolding getCodexCliAuth_found [OF assms(1-3)] soon using near far by auto
  qed
qed

text \<open>
  The two instances of the specification: with a leeway of 120 seconds, a token that
  expires 10 seconds from now is refreshed, and one that expires 1000 seconds from now
  is returned as it is.
\<close>

theorem refresh_trigger_witness:
  "extractJwtExpMs (demo_platform (exp_claim 1700000010) (http 200 (js ''GOOD''))) (js ''h.p.s'')
     = Some (now (demo_platform (exp_claim 1700000010) (http 200 (js ''GOOD''))) + 10 * 1000)
   \<and> calls (snd (getCodexCliAuth (demo_platform (exp_claim 1700000010) (http 200 (js ''GOOD'')))
                  (demo_options (Some 120)) demo_world)) \<noteq> calls demo_world
   \<and> extractJwtExpMs (demo_platform (exp_claim 1700001000) (http 200 (js ''GOOD''))) (js ''h.p.s'')
     = Some (now (demo_platform (exp_claim 1700001000) (http 200 (js ''GOOD''))) + 1000 * 1000)
   \<and> getCodexCliAuth (demo_platform (exp_claim 1700001000) (http 200 (js ''GOOD'')))
                  (demo_options None) demo_world
       = (Inr (Some \<lparr>accessToken = js ''h.p.s'', refreshToken = Some (js ''r1''),
                     idToken = None, expiresAtMs = Some 1700001000000\<rparr>), demo_world)"
proof -
  let ?P = "demo_platform (exp_claim 1700000010) (http 200 (js ''GOOD''))"
  let ?Q = "demo_platform (exp_claim 1700001000) (http 200 (js ''GOOD''))"
  have e1: "extractJwtExpMs ?P (js ''h.p.s'') = Some 1700000010000"
    by (simp add: demo_expiry exp_claim_def)
  have e2: "extractJwtExpMs ?Q (js ''h.p.s'') = Some 1700001000000"
    by (simp add: demo_expiry exp_claim_def)
  have l1: "(120::rat) =
      (case refreshLeewaySeconds (demo_options (Some 120)) of None \<Rightarrow> 120 | Some l \<Rightarrow> l)"
    by (simp add: demo_options_def)
  have l2: "(120::rat) =
      (case refreshLeewaySeconds (demo_options None) of None \<Rightarrow> 120 | Some l \<Rightarrow> l)"
    by (simp add: demo_options_def)
  have d1: "True \<longleftrightarrow> (\<exists>e. extractJwtExpMs ?P (js ''h.p.s'') = Some e
                     \<and> of_int e - max 0 (120::rat) * 1000 \<le> of_int (now ?P))"
    by (simp add: e1 demo_now)
  have d2: "False \<longleftrightarrow> (\<exists>e. extractJwtExpMs ?Q (js ''h.p.s'') = Some e
                     \<and> of_int e - max 0 (120::rat) * 1000 \<le> of_int (now ?Q))"
    by (simp add: e2 demo_now)
  from refresh_trigger [OF demo_read demo_tokens_found demo_access l1 d1 refl]
       refresh_trigger [OF demo_read demo_tokens_found demo_access l2 d2 refl]
  show ?thesis by (simp add: demo_refresh demo_id e1 e2 demo_now)
qed

text \<open>
  The claim as it was stated fails for a negative leeway: with a leeway of -100 seconds
  and a token that expired 50 seconds ago, the expiry minus the leeway is after the
  current time, and the token is refreshed all the same.
\<close>

theorem negative_leeway_is_clamped:
  "extractJwtExpMs (demo_platform (exp_claim 1699999950) (http 200 (js ''GOOD''))) (js ''h.p.s'')
     = Some 1699999950000
   \<and> \<not> (rat_of_int 1699999950000 - (- 100) * 1000
          \<le> rat_of_int (now (demo_platform (exp_claim 1699999950) (http 200 (js ''GOOD'')))))
   \<and> take 1 (calls (snd (getCodexCliAuth
                 (demo_platform (exp_claim 1699999950) (http 200 (js ''GOOD'')))
                 (demo_options (Some (- 100))) demo_world)))
       = [Fetch (refresh_request CODEX_TOKEN_URL CODEX_CLIENT_ID (js ''r1''))]"
proof -
  let ?P = "demo_platform (exp_claim 1699999950) (http 200 (js ''GOOD''))"
  have e: "extractJwtExpMs ?P (js ''h.p.s'') = Some 1699999950000"
    by (simp add: demo_expiry exp_claim_def)
  have soon: "isExpiringSoon (Some 1699999950000) (now ?P) (- 100)"
    by (simp add: isExpiringSoon_def demo_now)
  obtain rest where
    "calls (snd (refresh_and_store ?P (demo_options (Some (- 100))) demo_doc demo_tokens
                   (js ''r1'') None demo_world))
       = calls demo_world @ Fetch (refresh_request CODEX_TOKEN_URL CODEX_CLIENT_ID (js ''r1'')) # rest"
    using refresh_and_store_calls [of ?P "demo_options (Some (- 100))" demo_doc demo_tokens
        "js ''r1''" None demo_world]
    by (auto simp: demo_options_def)
  then have "take 1 (calls (snd (getCodexCliAuth ?P (demo_options (Some (- 100))) demo_world)))
       = [Fetch (refresh_request CODEX_TOKEN_URL CODEX_CLIENT_ID (js ''r1''))]"
    unfolding getCodexCliAuth_found [OF demo_read demo_tokens_found demo_access]
    using soon by (simp add: e demo_refresh demo_id demo_options_def demo_world_def)
  with e show ?thesis by (simp add: demo_now)
qed

section \<open>A failed refresh\<close>

lemma refreshTokens_failures:
  assumes "fetch P (refresh_request u c r) = Inr resp"
    and "\<not> ok resp
         \<or> (\<exists>v. parseJSON P (body_text resp) = Some v \<and> \<not> isRecord v)
         \<or> (\<exists>json. parseJSON P (body_text resp) = Some (JObj json)
                \<and> getOptionalString json (js ''access_token'') = None)"
  shows "\<exists>msg. refreshTokens P u c r = Inl (Error msg)"
proof (cases "ok resp")
  case False
  with assms(1) show ?thesis by (simp add: refreshTokens_def)
next
  case True
  with assms(2) consider
      v where "parseJSON P (body_text resp) = Some v" "\<not> isRecord v"
    | json where "parseJSON P (body_text resp) = Some (JObj json)"
        "getOptionalString json (js ''access_token'') = None"
    by auto
  then show ?thesis
  proof cases
    case 1
    with True assms(1) show ?thesis
      by (cases v) (simp_all add: refreshTokens_def isRecord_def)
  next
    case 2
    with True assms(1) show ?thesis by (simp add: refreshTokens_def)
  qed
qed

lemma refresh_and_store_failure:
  assumes "refreshTokens P (case tokenUrl options of None \<Rightarrow> CODEX_TOKEN_URL | Some u \<Rightarrow> u)
        (case oauthClientId options of None \<Rightarrow> CODEX_CLIENT_ID | Some c \<Rightarrow> c) r = Inl e"
  shows "refresh_and_store P options doc tokens r idTok w =
     (Inl e, w\<lparr>calls := calls w @ [Fetch (refresh_request
        (case tokenUrl options of None \<Rightarrow> CODEX_TOKEN_URL | Some u \<Rightarrow> u)
        (case oauthClientId options of None \<Rightarrow> CODEX_CLIENT_ID | Some c \<Rightarrow> c) r)]\<rparr>)"
  using assms by (simp add: refresh_and_store_def Let_def)

text \<open>
  Claim C5. When a refresh is due and the exchange fails - the HTTP status is not a
  success, or the body parses to a value that is not an object, or the object has no
  usable \<open>access_token\<close> - \<open>refreshTokens\<close> throws an Error and \<open>getCodexCliAuth\<close>
  throws the same Error instead of returning the stored token. The only call made is
  the token request: no file-system call, and every file has the content it had.
  Whatever else \<open>refreshTokens\<close> throws is passed on in the same way.
\<close>

theorem failed_refresh_is_hard_error:
  assumes "readJsonFile P w (case authJsonPath options of None \<Rightarrow> default_path P | Some p \<Rightarrow> p)
             = Inr (JObj doc)"
    and "map_of doc (js ''tokens'') = Some (JObj tokens)"
    and "getOptionalString tokens (js ''access_token'') = Some tok"
    and "isExpiringSoon (extractJwtExpMs P tok) (now P)
           (case refreshLeewaySeconds options of
              None \<Rightarrow> DEFAULT_REFRESH_LEEWAY_SECONDS | Some l \<Rightarrow> l)"
    and "getOptionalString tokens (js ''refresh_token'') = Some r"
    and "clientId = (case oauthClientId options of None \<Rightarrow> CODEX_CLIENT_ID | Some c \<Rightarrow> c)"
    and "token_url = (case tokenUrl options of None \<Rightarrow> CODEX_TOKEN_URL | Some u \<Rightarrow> u)"
    and "req = refresh_request token_url clientId r"
  shows "(fetch P req = Inr resp
          \<and> (\<not> ok resp
              \<or> (\<exists>v. parseJSON P (body_text resp) = Some v \<and> \<not> isRecord v)
              \<or> (\<exists>json. parseJSON P (body_text resp) = Some (JObj json)
                     \<and> getOptionalString json (js ''access_token'') = None))
          \<longrightarrow> (\<exists>msg. refreshTokens P token_url clientId r = Inl (Error msg)))
       \<and> (refreshTokens P token_url clientId r = Inl e
          \<longrightarrow> getCodexCliAuth P options w = (Inl e, w\<lparr>calls := calls w @ [Fetch req]\<rparr>)
              \<and> files (snd (getCodexCliAuth P options w)) = files w)"
proof -
  have a: "\<exists>msg. refreshTokens P token_url clientId r = Inl (Error msg)"
    if "fetch P req = Inr resp"
      and "\<not> ok resp
              \<or> (\<exists>v. parseJSON P (body_text resp) = Some v \<and> \<not> isRecord v)
              \<or> (\<exists>json. parseJSON P (body_text resp) = Some (JObj json)
                     \<and> getOptionalString json (js ''access_token'') = None)"
    using refreshTokens_failures [of P token_url clientId r resp] that assms(8) by simp
  have b: "getCodexCliAuth P options w = (Inl e, w\<lparr>calls := calls w @ [Fetch req]\<rparr>)"
    if f: "refreshTokens P token_url clientId r = Inl e"
    unfolding getCodexCliAuth_found [OF assms(1-3)]
    using assms(4,5,8) refresh_and_store_failure [OF f [unfolded assms(6,7)]]
    by (simp add: assms(6,7))
  show ?thesis using a b by auto
qed

text \<open>An instance: the token endpoint answers 400.\<close>

theorem failed_refresh_is_hard_error_witness:
  "isExpiringSoon
     (extractJwtExpMs (demo_platform (exp_claim 1700000010) (http 400 (js ''bad''))) (js ''h.p.s''))
     (now (demo_platform (exp_claim 1700000010) (http 400 (js ''bad''))))
     DEFAULT_REFRESH_LEEWAY_SECONDS
   \<and> \<not> ok (http 400 (js ''bad''))
   \<and> refreshTokens (demo_platform (exp_claim 1700000010) (http 400 (js ''bad'')))
        CODEX_TOKEN_URL CODEX_CLIENT_ID (js ''r1'')
       = Inl (Error (js ''Codex token refresh failed ('' @ decimal 400 @ js ''): bad''))
   \<and> getCodexCliAuth (demo_platform (exp_claim 1700000010) (http 400 (js ''bad'')))
        (demo_options None) demo_world
       = (Inl (Error (js ''Codex token refresh failed ('' @ decimal 400 @ js ''): bad'')),
          demo_world\<lparr>calls := calls demo_world
             @ [Fetch (refresh_request CODEX_TOKEN_URL CODEX_CLIENT_ID (js ''r1''))]\<rparr>)
   \<and> files (snd (getCodexCliAuth (demo_platform (exp_claim 1700000010) (http 400 (js ''bad'')))
                    (demo_options None) demo_world))
       = files demo_world"
proof -
  let ?P = "demo_platform (exp_claim 1700000010) (http 400 (js ''bad''))"
  have e: "extractJwtExpMs ?P (js ''h.p.s'') = Some 1700000010000"
    by (simp add: demo_expiry exp_claim_def)
  have soon: "isExpiringSoon (extractJwtExpMs ?P (js ''h.p.s'')) (now ?P)
     (case refreshLeewaySeconds (demo_options None) of
              None \<Rightarrow> DEFAULT_REFRESH_LEEWAY_SECONDS | Some l \<Rightarrow> l)"
    by (simp add: e isExpiringSoon_def demo_now demo_options_def
        DEFAULT_REFRESH_LEEWAY_SECONDS_def)
  have nok: "\<not> ok (http 400 (js ''bad''))" by (simp add: http_def)
  have c: "CODEX_CLIENT_ID =
      (case oauthClientId (demo_options None) of None \<Rightarrow> CODEX_CLIENT_ID | Some c \<Rightarrow> c)"
    and u: "CODEX_TOKEN_URL =
      (case tokenUrl (demo_options None) of None \<Rightarrow> CODEX_TOKEN_URL | Some u \<Rightarrow> u)"
    by (simp_all add: demo_options_def)
  have rt: "refreshTokens ?P CODEX_TOKEN_URL CODEX_CLIENT_ID (js ''r1'')
       = Inl (Error (js ''Codex token refresh failed ('' @ decimal 400 @ js ''): bad''))"
    by (simp add: refreshTokens_def demo_platform_def http_def js_def)
  from failed_refresh_is_hard_error [OF demo_read demo_tokens_found demo_access soon demo_refresh
         c u refl]
  show ?thesis using soon nok rt by (simp add: demo_options_def)
qed

section \<open>A successful refresh\<close>

lemma js_keys_distinct [simp]:
  "js ''tokens'' \<noteq> js ''last_refresh''"
  "js ''access_token'' \<noteq> js ''refresh_token''" "js ''access_token'' \<noteq> js ''id_token''"
  "js ''refresh_token'' \<noteq> js ''id_token''"
  "js ''refresh_token'' \<noteq> js ''access_token''" "js ''id_token'' \<noteq> js ''access_token''"
  "js ''id_token'' \<noteq> js ''refresh_token''" "js ''last_refresh'' \<noteq> js ''tokens''"
  by (simp_all add: js_def)

lemma merge_file_frame:
  "map_of (merge_file P tokens' doc) k =
     (if k = js ''last_refresh'' then Some (JStr (iso_now P))
      else if k = js ''tokens'' then Some (JObj tokens')
      else map_of doc k)"
  by (simp add: merge_file_def AList.update_conv')

lemma merge_tokens_frame:
  "map_of (merge_tokens a r i tokens) k =
     (if k = js ''access_token'' then Some (JStr a)
      else if k = js ''refresh_token'' then Some (JStr r)
      else if k = js ''id_token''
      then (case i of None \<Rightarrow> map_of tokens k | Some v \<Rightarrow> Some (JStr v))
      else map_of tokens k)"
  by (simp add: merge_tokens_def Let_def AList.update_conv' split: option.splits)

lemma tmpPath_neq: "tmpPath P path \<noteq> path"
  by (simp add: tmpPath_def js_def)

lemma decimal_digits: "\<forall>c \<in> set (decimal n). 48 \<le> c"
proof (induction n rule: decimal.induct)
  case (1 n)
  show ?case by (subst decimal.simps) (use 1 in auto)
qed

lemma dropWhile_hd_keep: "xs \<noteq> [] \<Longrightarrow> \<not> P (hd xs) \<Longrightarrow> dropWhile P xs = xs"
  by (cases xs) simp_all

lemma dirname_suffix:
  assumes "path \<noteq> []" "last path \<noteq> 47" "47 \<notin> set suffix"
  shows "dirname (path @ suffix) = dirname path"
proof (cases "suffix = []")
  case True
  then show ?thesis by simp
next
  case False
  define body where
    "body = dropWhile (\<lambda>c. c \<noteq> 47) (dropWhile (\<lambda>c. c = 47) (rev (tl path)))"
  have tl_app: "tl (path @ suffix) = tl path @ suffix" using assms(1) by simp
  have "hd (rev suffix) \<in> set suffix" using False by (simp add: hd_rev)
  then have "hd (rev suffix @ rev (tl path)) \<noteq> 47" using False assms(3) by auto
  then have a: "dropWhile (\<lambda>c. c = 47) (rev suffix @ rev (tl path)) = rev suffix @ rev (tl path)"
    using False by (intro dropWhile_hd_keep) simp_all
  have b: "dropWhile (\<lambda>c. c \<noteq> 47) (rev suffix @ rev (tl path))
           = dropWhile (\<lambda>c. c \<noteq> 47) (rev (tl path))"
    using assms(3) by (simp add: dropWhile_append)
  have c: "dropWhile (\<lambda>c. c = 47) (rev (tl path)) = rev (tl path)"
  proof (cases "tl path = []")
    case True
    then show ?thesis by simp
  next
    case ne: False
    then have "last (tl path) = last path" using assms(1) by (simp add: last_tl)
    then have "hd (rev (tl path)) \<noteq> 47" using assms(2) ne by (simp add: hd_rev)
    then show ?thesis using ne by (intro dropWhile_hd_keep) simp_all
  qed
  have body2:
    "dropWhile (\<lambda>c. c \<noteq> 47) (dropWhile (\<lambda>c. c = 47) (rev (tl (path @ suffix)))) = body"
    unfolding body_def tl_app rev_append a b c ..
  have "length body \<le> length (rev (tl path))"
    unfolding body_def c by (rule length_dropWhile_le)
  then have len: "length body \<le> length path" by simp
  have hd_app: "hd (path @ suffix) = hd path" using assms(1) by simp
  have "dirname (path @ suffix) =
     (if body = [] then (if hd path = 47 then js ''/'' else js ''.'')
            else if hd path = 47 \<and> length body = 1 then js ''//''
            else take (length body) path)"
    unfolding dirname_def Let_def body2 using assms(1) len by (simp add: hd_app)
  also have "\<dots> = dirname path"
    unfolding dirname_def Let_def body_def [symmetric] using assms(1) by simp
  finally show ?thesis .
qed

lemma tmpPath_same_directory:
  assumes "path \<noteq> []" "last path \<noteq> 47" "47 \<notin> set (random_suffix P)"
  shows "dirname (tmpPath P path) = dirname path"
proof -
  have "47 \<notin> set (decimal (pid P))" using decimal_digits [of "pid P"] by auto
  then have "47 \<notin> set (js ''.tmp-'' @ decimal (pid P) @ js ''-'' @ random_suffix P)"
    using assms(3) by (simp add: js_def)
  from dirname_suffix [OF assms(1,2) this] show ?thesis by (simp add: tmpPath_def)
qed

lemma writeJsonFile_ok:
  assumes "\<not> fs_fails P (Mkdir (dirname path) 448)"
    and "\<not> fs_fails P (WriteFile (tmpPath P path) (stringify P d @ [10]) 384)"
    and "\<not> fs_fails P (Rename (tmpPath P path) path)"
  shows "writeJsonFile P path d w =
     (None, \<lparr>files = ((files w)(path \<mapsto> stringify P d @ [10]))(tmpPath P path := None),
             calls = calls w @ [Fs (Mkdir (dirname path) 448),
                                Fs (WriteFile (tmpPath P path) (stringify P d @ [10]) 384),
                                Fs (Rename (tmpPath P path) path)]\<rparr>)"
  using assms tmpPath_neq [of P path]
  by (auto simp: writeJsonFile_def perform_def Let_def fun_eq_iff)

text \<open>
  Claim C6. After a successful refresh with write-back, the document written has every
  top-level key of the stored one with its value, except \<open>tokens\<close> and \<open>last_refresh\<close>;
  \<open>last_refresh\<close> is the time stamp; the token block has every key of the stored one
  with its value, except \<open>access_token\<close> (the new one), \<open>refresh_token\<close> (the new one,
  or the stored one when the response has none) and \<open>id_token\<close> (the new one, or what
  was stored when the response has none). After the token request the calls are:
  \<open>mkdir\<close> of the directory of the path, recursive, with mode 0o700; \<open>writeFile\<close> of a
  file named by the path, \<open>.tmp-\<close>, the process id, \<open>-\<close> and the random suffix, with
  mode 0o600; \<open>rename\<close> of that file to the path. The temporary file is in the directory
  of the path, and the path then holds the new document.
\<close>

theorem refresh_preserves_unknown_keys:
  assumes "readJsonFile P w path = Inr (JObj doc)"
    and "path = (case authJsonPath options of None \<Rightarrow> default_path P | Some p \<Rightarrow> p)"
    and "map_of doc (js ''tokens'') = Some (JObj tokens)"
    and "getOptionalString tokens (js ''access_token'') = Some tok"
    and "isExpiringSoon (extractJwtExpMs P tok) (now P)
           (case refreshLeewaySeconds options of
              None \<Rightarrow> DEFAULT_REFRESH_LEEWAY_SECONDS | Some l \<Rightarrow> l)"
    and "getOptionalString tokens (js ''refresh_token'') = Some r"
    and "req = refresh_request (case tokenUrl options of None \<Rightarrow> CODEX_TOKEN_URL | Some u \<Rightarrow> u)
                 (case oauthClientId options of None \<Rightarrow> CODEX_CLIENT_ID | Some c \<Rightarrow> c) r"
    and "refreshTokens P (url req)
           (case oauthClientId options of None \<Rightarrow> CODEX_CLIENT_ID | Some c \<Rightarrow> c) r
         = Inr refreshed"
    and "writeBack options \<noteq> Some False"
    and "tokens' = merge_tokens (access_token refreshed)
                     (case refresh_token refreshed of None \<Rightarrow> r | Some x \<Rightarrow> x)
                     (case id_token refreshed of
                        None \<Rightarrow> getOptionalString tokens (js ''id_token'') | Some i \<Rightarrow> Some i)
                     tokens"
    and "doc' = merge_file P tokens' doc"
    and "written = stringify P (JObj doc') @ [10]"
    and "\<not> fs_fails P (Mkdir (dirname path) 448)"
    and "\<not> fs_fails P (WriteFile (tmpPath P path) written 384)"
    and "\<not> fs_fails P (Rename (tmpPath P path) path)"
  shows "getCodexCliAuth P options w =
           (Inr (Some \<lparr>accessToken = access_token refreshed,
                  refreshToken = Some (case refresh_token refreshed of None \<Rightarrow> r | Some x \<Rightarrow> x),
                  idToken = (case id_token refreshed of
                        None \<Rightarrow> getOptionalString tokens (js ''id_token'') | Some i \<Rightarrow> Some i),
                  expiresAtMs = extractJwtExpMs P (access_token refreshed)\<rparr>),
            \<lparr>files = ((files w)(path \<mapsto> written))(tmpPath P path := None),
             calls = calls w @ [Fetch req, Fs (Mkdir (dirname path) 448),
                                Fs (WriteFile (tmpPath P path) written 384),
                                Fs (Rename (tmpPath P path) path)]\<rparr>)
       \<and> tmpPath P path = path @ js ''.tmp-'' @ decimal (pid P) @ js ''-'' @ random_suffix P
       \<and> (path \<noteq> [] \<and> last path \<noteq> 47 \<and> 47 \<notin> set (random_suffix P) \<longrightarrow>
            dirname (tmpPath P path) = dirname path)
       \<and> (\<forall>k. k \<noteq> js ''tokens'' \<and> k \<noteq> js ''last_refresh'' \<longrightarrow> map_of doc' k = map_of doc k)
       \<and> map_of doc' (js ''last_refresh'') = Some (JStr (iso_now P))
       \<and> map_of doc' (js ''tokens'') = Some (JObj tokens')
       \<and> (\<forall>k. k \<noteq> js ''access_token'' \<and> k \<noteq> js ''refresh_token'' \<and> k \<noteq> js ''id_token''
              \<longrightarrow> map_of tokens' k = map_of tokens k)
       \<and> map_of tokens' (js ''access_token'') = Some (JStr (access_token refreshed))
       \<and> map_of tokens' (js ''refresh_token'') =
             Some (JStr (case refresh_token refreshed of None \<Rightarrow> r | Some x \<Rightarrow> x))
       \<and> map_of tokens' (js ''id_token'') =
             (case id_token refreshed of None \<Rightarrow> map_of tokens (js ''id_token'')
              | Some i \<Rightarrow> Some (JStr i))
       \<and> dom (map_of doc) \<subseteq> dom (map_of doc') \<and> dom (map_of tokens) \<subseteq> dom (map_of tokens')"
proof -
  let ?u = "case tokenUrl options of None \<Rightarrow> CODEX_TOKEN_URL | Some u \<Rightarrow> u"
  let ?c = "case oauthClientId options of None \<Rightarrow> CODEX_CLIENT_ID | Some c \<Rightarrow> c"
  let ?w1 = "w\<lparr>calls := calls w @ [Fetch req]\<rparr>"
  have u: "url req = ?u" using assms(7) by (simp add: refresh_request_def)
  have wb: "(case writeBack options of None \<Rightarrow> True | Some b \<Rightarrow> b)"
    using assms(9) by (cases "writeBack options") auto
  have wr: "writeJsonFile P path (JObj doc') ?w1 =
     (None, \<lparr>files = ((files w)(path \<mapsto> written))(tmpPath P path := None),
             calls = calls w @ [Fetch req, Fs (Mkdir (dirname path) 448),
                                Fs (WriteFile (tmpPath P path) written 384),
                                Fs (Rename (tmpPath P path) path)]\<rparr>)"
    using writeJsonFile_ok [of P path "JObj doc'" ?w1] assms(12-15) by simp
  have ras: "refresh_and_store P options doc tokens r (getOptionalString tokens (js ''id_token'')) w =
     (Inr (Some \<lparr>accessToken = access_token refreshed,
                  refreshToken = Some (case refresh_token refreshed of None \<Rightarrow> r | Some x \<Rightarrow> x),
                  idToken = (case id_token refreshed of
                        None \<Rightarrow> getOptionalString tokens (js ''id_token'') | Some i \<Rightarrow> Some i),
                  expiresAtMs = extractJwtExpMs P (access_token refreshed)\<rparr>),
            \<lparr>files = ((files w)(path \<mapsto> written))(tmpPath P path := None),
             calls = calls w @ [Fetch req, Fs (Mkdir (dirname path) 448),
                                Fs (WriteFile (tmpPath P path) written 384),
                                Fs (Rename (tmpPath P path) path)]\<rparr>)"
    using assms(8) u wb wr assms(2,7,10,11)
    by (simp add: refresh_and_store_def Let_def)
  have main: "getCodexCliAuth P options w = refresh_and_store P options doc tokens r
                 (getOptionalString tokens (js ''id_token'')) w"
    using getCodexCliAuth_found [OF assms(1) [unfolded assms(2)] assms(3,4)] assms(5,6) by simp
  have idt: "map_of tokens' (js ''id_token'') =
             (case id_token refreshed of None \<Rightarrow> map_of tokens (js ''id_token'')
              | Some i \<Rightarrow> Some (JStr i))"
    unfolding assms(10) merge_tokens_frame
    by (auto simp: getOptionalString_def split: option.splits json.splits if_splits)
  have doms: "dom (map_of doc) \<subseteq> dom (map_of doc')" "dom (map_of tokens) \<subseteq> dom (map_of tokens')"
    unfolding assms(10,11) by (auto simp: merge_file_frame merge_tokens_frame split: option.splits)
  have dir: "path \<noteq> [] \<and> last path \<noteq> 47 \<and> 47 \<notin> set (random_suffix P) \<longrightarrow>
            dirname (tmpPath P path) = dirname path"
    using tmpPath_same_directory [of path P] by simp
  have frames:
    "\<forall>k. k \<noteq> js ''tokens'' \<and> k \<noteq> js ''last_refresh'' \<longrightarrow> map_of doc' k = map_of doc k"
    "map_of doc' (js ''last_refresh'') = Some (JStr (iso_now P))"
    "map_of doc' (js ''tokens'') = Some (JObj tokens')"
    "\<forall>k. k \<noteq> js ''access_token'' \<and> k \<noteq> js ''refresh_token'' \<and> k \<noteq> js ''id_token''
              \<longrightarrow> map_of tokens' k = map_of tokens k"
    "map_of tokens' (js ''access_token'') = Some (JStr (access_token refreshed))"
    "map_of tokens' (js ''refresh_token'') =
             Some (JStr (case refresh_token refreshed of None \<Rightarrow> r | Some x \<Rightarrow> x))"
    by (simp_all add: assms(10,11) merge_file_frame merge_tokens_frame)
  show ?thesis
    unfolding main ras using idt doms dir frames
    by (simp add: tmpPath_def)
qed

text \<open>
  An instance: the example file is refreshed; the response has a new access token and a
  new id token and no refresh token. The keys \<open>OPENAI_API_KEY\<close> and \<open>account_id\<close>,
  which the module does not know, are in the document written.
\<close>

theorem refresh_preserves_unknown_keys_witness:
  "fst (getCodexCliAuth (demo_platform (exp_claim 1700000010) (http 200 (js ''GOOD'')))
          (demo_options None) demo_world)
     = Inr (Some \<lparr>accessToken = js ''h2.p.s'', refreshToken = Some (js ''r1''),
                  idToken = Some (js ''id2''), expiresAtMs = Some 1700000010000\<rparr>)
   \<and> calls (snd (getCodexCliAuth (demo_platform (exp_claim 1700000010) (http 200 (js ''GOOD'')))
                    (demo_options None) demo_world))
     = [Fetch (refresh_request CODEX_TOKEN_URL CODEX_CLIENT_ID (js ''r1'')),
        Fs (Mkdir (dirname (js ''/home/u/.codex/auth.json'')) 448),
        Fs (WriteFile
              (tmpPath (demo_platform (exp_claim 1700000010) (http 200 (js ''GOOD'')))
                 (js ''/home/u/.codex/auth.json''))
              (stringify (demo_platform (exp_claim 1700000010) (http 200 (js ''GOOD'')))
                 (JObj (merge_file (demo_platform (exp_claim 1700000010) (http 200 (js ''GOOD'')))
                          (merge_tokens (js ''h2.p.s'') (js ''r1'') (Some (js ''id2'')) demo_tokens)
                          demo_doc)) @ [10])
              384),
        Fs (Rename
              (tmpPath (demo_platform (exp_claim 1700000010) (http 200 (js ''GOOD'')))
                 (js ''/home/u/.codex/auth.json''))
              (js ''/home/u/.codex/auth.json''))]
   \<and> files (snd (getCodexCliAuth (demo_platform (exp_claim 1700000010) (http 200 (js ''GOOD'')))
                    (demo_options None) demo_world)) (js ''/home/u/.codex/auth.json'')
     = Some (stringify (demo_platform (exp_claim 1700000010) (http 200 (js ''GOOD'')))
                 (JObj (merge_file (demo_platform (exp_claim 1700000010) (http 200 (js ''GOOD'')))
                          (merge_tokens (js ''h2.p.s'') (js ''r1'') (Some (js ''id2'')) demo_tokens)
                          demo_doc)) @ [10])
   \<and> map_of (merge_file (demo_platform (exp_claim 1700000010) (http 200 (js ''GOOD'')))
                (merge_tokens (js ''h2.p.s'') (js ''r1'') (Some (js ''id2'')) demo_tokens)
                demo_doc) (js ''OPENAI_API_KEY'')
     = Some JNull
   \<and> map_of (merge_tokens (js ''h2.p.s'') (js ''r1'') (Some (js ''id2'')) demo_tokens)
        (js ''account_id'')
     = Some (JStr (js ''acct''))
   \<and> map_of (merge_tokens (js ''h2.p.s'') (js ''r1'') (Some (js ''id2'')) demo_tokens)
        (js ''id_token'')
     = Some (JStr (js ''id2''))"
proof -
  let ?P = "demo_platform (exp_claim 1700000010) (http 200 (js ''GOOD''))"
  let ?path = "js ''/home/u/.codex/auth.json''"
  have pa: "?path = (case authJsonPath (demo_options None) of
                       None \<Rightarrow> default_path ?P | Some p \<Rightarrow> p)"
    by (simp add: demo_options_def demo_platform_def)
  have rd: "readJsonFile ?P demo_world ?path = Inr (JObj demo_doc)"
    using demo_read [of "exp_claim 1700000010" "http 200 (js ''GOOD'')" None] pa by simp
  have e: "extractJwtExpMs ?P (js ''h.p.s'') = Some 1700000010000"
    and e2: "extractJwtExpMs ?P (js ''h2.p.s'') = Some 1700000010000"
    by (simp_all add: demo_expiry exp_claim_def)
  have soon: "isExpiringSoon (extractJwtExpMs ?P (js ''h.p.s'')) (now ?P)
     (case refreshLeewaySeconds (demo_options None) of
              None \<Rightarrow> DEFAULT_REFRESH_LEEWAY_SECONDS | Some l \<Rightarrow> l)"
    by (simp add: e isExpiringSoon_def demo_now demo_options_def
        DEFAULT_REFRESH_LEEWAY_SECONDS_def)
  have rt: "refreshTokens ?P
              (url (refresh_request
                 (case tokenUrl (demo_options None) of None \<Rightarrow> CODEX_TOKEN_URL | Some u \<Rightarrow> u)
                 (case oauthClientId (demo_options None) of
                    None \<Rightarrow> CODEX_CLIENT_ID | Some c \<Rightarrow> c) (js ''r1'')))
              (case oauthClientId (demo_options None) of None \<Rightarrow> CODEX_CLIENT_ID | Some c \<Rightarrow> c)
              (js ''r1'')
            = Inr \<lparr>access_token = js ''h2.p.s'', refresh_token = None,
                   id_token = Some (js ''id2''), expires_in = None, token_type = None\<rparr>"
    by (simp add: refreshTokens_def demo_platform_def http_def getOptionalString_def
        js_def trim_def is_ws_def)
  have wb: "writeBack (demo_options None) \<noteq> Some False" by (simp add: demo_options_def)
  have ok: "\<not> fs_fails ?P c" for c by (simp add: demo_platform_def)
  have same: "tmpPath ?P ?path \<noteq> ?path" by (rule tmpPath_neq)
  have keys: "js ''OPENAI_API_KEY'' \<noteq> js ''tokens''" "js ''OPENAI_API_KEY'' \<noteq> js ''last_refresh''"
    "js ''account_id'' \<noteq> js ''access_token''" "js ''account_id'' \<noteq> js ''refresh_token''"
    "js ''account_id'' \<noteq> js ''id_token''"
    by (simp_all add: js_def)
  have old: "map_of demo_doc (js ''OPENAI_API_KEY'') = Some JNull"
    "map_of demo_tokens (js ''account_id'') = Some (JStr (js ''acct''))"
    by (simp_all add: demo_doc_def demo_tokens_def js_def)
  from refresh_preserves_unknown_keys
         [OF rd pa demo_tokens_found demo_access soon demo_refresh refl rt wb refl refl refl
             ok ok ok]
  show ?thesis
    using same keys old e2
    by (simp add: demo_id demo_request demo_world_def)
qed

end
